theory Spec2Isabelle
  imports Main
begin

section \<open>go-scrub: masking sensitive strings in nested Go values\<close>

text \<open>
  The repository holds three generations of one package. All three walk a Go value by
  reflection and overwrite the string fields whose lower-cased name is a key of
  \<open>fieldsToScrub\<close>:
  \<^item> generation 1 (\<open>src/unnamed/part_000\<close>): masks in place with \<open>"********"\<close>,
    serialises, then walks again to put the saved strings back;
  \<^item> generation 2 (\<open>src/scrub.go\<close>, second file): clones the target through the codec and
    masks the clone, symbol and length configurable;
  \<^item> generation 3 (\<open>src/scrub.go\<close>, first file): as generation 2, with partial masking
    and with support for \<open>map[string]interface{}\<close>.

  Go strings are byte sequences and \<open>len\<close> counts bytes, so a Go string is a
  \<open>string\<close> here and one \<open>char\<close> is one byte. Go's \<open>int\<close> is modelled by
  \<open>int\<close>: the only arithmetic of the package is \<open>len(value) - n\<close>, and wherever a
  64-bit subtraction would wrap (\<open>n\<close> negative) both the wrapped and the exact result
  are outside \<open>0..len(value)\<close>, so the slice expression that consumes it panics either way.
\<close>

subsection \<open>Panics\<close>

datatype panic =
    SliceBoundsOutOfRange     \<comment> \<open>\<open>s[lo:hi]\<close> outside \<open>0 \<le> lo \<le> hi \<le> len(s)\<close>\<close>
  | NegativeRepeatCount       \<comment> \<open>\<open>strings.Repeat\<close> with a negative count\<close>
  | RepeatLengthOverflow      \<comment> \<open>\<open>strings.Repeat\<close> with a result longer than the largest \<open>int\<close>\<close>
  | IndexOutOfRange           \<comment> \<open>\<open>xs[0]\<close> on an empty slice\<close>
  | ElemOfNonPointer          \<comment> \<open>\<open>reflect.Value.Elem\<close> on a kind other than Interface or Ptr\<close>
  | NotAssignable             \<comment> \<open>\<open>SetMapIndex\<close> with a key or element the map's type does not take\<close>

definition bindP :: "panic + 'a \<Rightarrow> ('a \<Rightarrow> panic + 'b) \<Rightarrow> panic + 'b" where
  "bindP m f = (case m of Inl p \<Rightarrow> Inl p | Inr x \<Rightarrow> f x)"

subsection \<open>Go values as seen through reflection\<close>

type_synonym addr = nat

text \<open>
  One constructor per \<open>reflect.Kind\<close> the package distinguishes. \<open>VString\<close> is any
  value of kind String, of the type \<open>string\<close> or of a named string type. \<open>VOther z\<close>
  stands for every kind the walkers never look into (numbers, booleans, channels,
  functions); \<open>z\<close> tells whether it is the zero value of its type. A struct is the list
  of its fields in declaration order: name, whether the field is exported, value. A
  pointer holds the address of a heap cell or is nil.

  A map carries what the walker asks of its type: whether the key type is the type
  \<open>string\<close> itself (rather than a named string type or a type of another kind), and
  what the element type is: not an interface type, the empty interface, or an interface
  with methods, which a plain \<open>string\<close> does not implement. Its entries are listed with
  their keys as \<open>k.String()\<close> renders them, pairwise distinct as in every Go map, in
  the order in which \<open>MapKeys()\<close> happens to give them. A map is held by value, like a
  slice. A key type that is an interface type, under which \<open>SetMapIndex\<close> would add
  an entry under the rendered key, is outside the model.
\<close>

datatype elemtype = ElemNotInterface | ElemEmptyInterface | ElemMethodInterface

datatype val =
    VString string
  | VOther bool
  | VPtr "addr option"
  | VIface "val option"
  | VStruct "(string \<times> bool \<times> val) list"
  | VArray "val list"
  | VSlice "val list"
  | VNilSlice
  | VMap bool elemtype "(string \<times> val) list"
  | VNilMap

type_synonym heap = "addr \<rightharpoonup> val"

subsection \<open>Library functions used by the package\<close>

definition lower_char :: "char \<Rightarrow> char" where
  "lower_char c =
     (let n = (of_char c :: nat) in if 65 \<le> n \<and> n \<le> 90 then char_of (n + 32) else c)"

text \<open>
  \<open>strings.ToLower\<close> folds by the Unicode tables of the library, which are not part
  of the package. It is a parameter of the model: \<open>doMasking\<close> and every walker take
  it as their first argument \<open>ToLower\<close>, and what is proved of them holds whatever
  function that is. On a string of ASCII bytes \<open>strings.ToLower\<close> is
  \<open>ToLowerASCII\<close>, which the examples pass.
\<close>

definition ToLowerASCII :: "string \<Rightarrow> string" where
  "ToLowerASCII s = map lower_char s"

text \<open>
  \<open>strings.Repeat(s, count)\<close> panics on a negative count, and on a result longer than
  the largest \<open>int\<close> (64 bits). Its \<open>count\<close> is a Go \<open>int\<close>, so at most
  \<open>maxInt\<close>; the length check is the library's for every such count, and a larger
  number, which no Go program can pass, is just repeated. One byte repeated \<open>count\<close>
  times has length \<open>count\<close>, so generation 3, whose symbol is one byte, never meets
  the second panic; generation 2 can, with a long symbol.
\<close>

definition maxInt :: int where
  "maxInt = 9223372036854775807"

definition Repeat :: "string \<Rightarrow> int \<Rightarrow> panic + string" where
  "Repeat s count =
     (if count < 0 then Inl NegativeRepeatCount
      else if count \<le> maxInt \<and> maxInt < int (length s) * count then Inl RepeatLengthOverflow
      else Inr (concat (replicate (nat count) s)))"

text \<open>The slice expression \<open>s[lo:hi]\<close>, with the run-time bounds check written out.\<close>

definition slice :: "string \<Rightarrow> int \<Rightarrow> int \<Rightarrow> panic + string" where
  "slice s lo hi =
     (if 0 \<le> lo \<and> lo \<le> hi \<and> hi \<le> int (length s)
      then Inr (take (nat (hi - lo)) (drop (nat lo) s))
      else Inl SliceBoundsOutOfRange)"

subsection \<open>Generation 3: field policy and masking strategy\<close>

definition defaultMaskLen :: int where
  "defaultMaskLen = 8"

definition defaultMaskSymbol :: string where
  "defaultMaskSymbol = ''*''"

definition XMLScrub :: string where
  "XMLScrub = ''xml''"

definition JSONScrub :: string where
  "JSONScrub = ''json''"

text \<open>
  A \<open>FieldScrubOptioner\<close> is an interface of seven getters; a non-nil one is modelled by
  the record of the values they return.
\<close>

record FieldScrubOptioner =
  GetMaskingSymbol :: string
  PartMaskEnabled :: bool
  PartMaskMinFldLen :: int
  PartMaskMaxFldLen :: int
  PartMaskVisibleFrontLen :: int
  PartMaskVisibleBackOnlyIfFldLenGreaterThan :: int
  PartMaskVisibleBackLen :: int

text \<open>
  \<open>map[string]FieldScrubOptioner\<close>: a key may be present with a nil interface as its
  value (\<open>Some None\<close>), as the tests do for \<open>"password": nil\<close>.
\<close>

type_synonym fieldsToScrub = "string \<rightharpoonup> FieldScrubOptioner option"

definition defaultFieldScrubOpts :: FieldScrubOptioner where
  "defaultFieldScrubOpts =
     \<lparr>GetMaskingSymbol = defaultMaskSymbol, PartMaskEnabled = False,
      PartMaskMinFldLen = 0, PartMaskMaxFldLen = 0, PartMaskVisibleFrontLen = 0,
      PartMaskVisibleBackOnlyIfFldLenGreaterThan = 0, PartMaskVisibleBackLen = 0\<rparr>"

definition defaultToScrub :: fieldsToScrub where
  "defaultToScrub = [''password'' \<mapsto> Some defaultFieldScrubOpts]"

text \<open>The global \<open>MaskLenVary\<close> is read at call time; it is an argument here.\<close>

definition maskLen :: "bool \<Rightarrow> int \<Rightarrow> int" where
  "maskLen MaskLenVary targetValueLen = (if MaskLenVary then targetValueLen else defaultMaskLen)"

definition applyPartBackMask :: "string \<Rightarrow> string \<Rightarrow> int \<Rightarrow> panic + string" where
  "applyPartBackMask v symbol visibleFrontLen =
     bindP (slice v 0 visibleFrontLen) (\<lambda>visibleFront.
     bindP (Repeat symbol (int (length v) - visibleFrontLen)) (\<lambda>maskedBack.
     Inr (visibleFront @ maskedBack)))"

definition applyPartMiddleMask :: "string \<Rightarrow> string \<Rightarrow> int \<Rightarrow> int \<Rightarrow> panic + string" where
  "applyPartMiddleMask v symbol visibleFrontLen visibleBackLen =
     bindP (slice v 0 visibleFrontLen) (\<lambda>visibleFront.
     bindP (slice v (int (length v) - visibleBackLen) (int (length v))) (\<lambda>visibleBack.
     bindP (Repeat symbol ((int (length v) - visibleFrontLen) - visibleBackLen)) (\<lambda>maskedMiddle.
     Inr (visibleFront @ maskedMiddle @ visibleBack))))"

definition applyFullMask :: "string \<Rightarrow> int \<Rightarrow> panic + string" where
  "applyFullMask symbol n = Repeat symbol n"

text \<open>
  \<open>doMasking\<close> receives a \<open>reflect.Value\<close>: here the value and the answer of its
  \<open>CanSet()\<close>. It returns the mask and the flag \<open>ok\<close>, or panics.
\<close>

definition doMasking ::
  "(string \<Rightarrow> string) \<Rightarrow>
   bool \<Rightarrow> val \<Rightarrow> bool \<Rightarrow> string \<Rightarrow> fieldsToScrub \<Rightarrow> bool \<Rightarrow> panic + (string \<times> bool)" where
  "doMasking ToLower MaskLenVary targetValue canSet fieldName fieldsToScrub checkCanSet =
     (case fieldsToScrub (ToLower fieldName) of
        None \<Rightarrow> Inr ([], False)
      | Some opts \<Rightarrow>
          if checkCanSet \<and> \<not> canSet then Inr ([], False)
          else (case targetValue of
              VString s \<Rightarrow>
                if s \<noteq> [] then
                  (let symbol = (case opts of
                          Some po \<Rightarrow> if length (GetMaskingSymbol po) = 1 then GetMaskingSymbol po
                                    else defaultMaskSymbol
                        | None \<Rightarrow> defaultMaskSymbol);
                       n = int (length s);
                       full = bindP (applyFullMask symbol (maskLen MaskLenVary n)) (\<lambda>m. Inr (m, True))
                   in case opts of
                        Some po \<Rightarrow>
                          if PartMaskEnabled po then
                            (if n < PartMaskMinFldLen po then full
                             else if n > PartMaskMaxFldLen po then full
                             else if n < PartMaskVisibleBackOnlyIfFldLenGreaterThan po then
                               bindP (applyPartBackMask s symbol (PartMaskVisibleFrontLen po))
                                 (\<lambda>m. Inr (m, True))
                             else if n \<le> PartMaskMaxFldLen po then
                               bindP (applyPartMiddleMask s symbol (PartMaskVisibleFrontLen po)
                                        (PartMaskVisibleBackLen po))
                                 (\<lambda>m. Inr (m, True))
                             else full)
                          else full
                      | None \<Rightarrow> full)
                else Inr ([], False)
            | _ \<Rightarrow> Inr ([], False)))"

subsection \<open>The masks as the specification words them\<close>

text \<open>
  These four definitions follow the specification, not the code: the symbol a policy
  resolves to, and the three shapes of mask, on lists with \<open>take\<close>, \<open>drop\<close> and
  \<open>replicate\<close>. The theorems below compare \<open>doMasking\<close> with them.
\<close>

definition spec_symbol :: "FieldScrubOptioner option \<Rightarrow> char" where
  "spec_symbol opts =
     (case opts of
        None \<Rightarrow> CHR ''*''
      | Some po \<Rightarrow> (case GetMaskingSymbol po of [c] \<Rightarrow> c | _ \<Rightarrow> CHR ''*''))"

definition spec_full_mask :: "bool \<Rightarrow> char \<Rightarrow> string \<Rightarrow> string" where
  "spec_full_mask MaskLenVary c s = replicate (if MaskLenVary then length s else 8) c"

definition spec_front_visible :: "char \<Rightarrow> nat \<Rightarrow> string \<Rightarrow> string" where
  "spec_front_visible c front s = take front s @ replicate (length s - front) c"

definition spec_middle_visible :: "char \<Rightarrow> nat \<Rightarrow> nat \<Rightarrow> string \<Rightarrow> string" where
  "spec_middle_visible c front back s =
     take front s @ replicate (length s - front - back) c @ drop (length s - back) s"

subsection \<open>Outcomes of a walk\<close>

text \<open>
  The walkers follow pointers, and a cyclic value makes the Go recursion run until the
  stack overflows. They take fuel, spent only where a pointer inside the value is
  followed: \<open>Diverges\<close> is the answer when it runs out. \<open>Panics\<close> is a run-time
  panic, \<open>Returns\<close> a normal return.
\<close>

datatype 'a outcome = Returns 'a | Panics panic | Diverges

definition bindO :: "'a outcome \<Rightarrow> ('a \<Rightarrow> 'b outcome) \<Rightarrow> 'b outcome" where
  "bindO m f = (case m of Returns x \<Rightarrow> f x | Panics p \<Rightarrow> Panics p | Diverges \<Rightarrow> Diverges)"

definition liftP :: "panic + 'a \<Rightarrow> 'a outcome" where
  "liftP r = (case r of Inl p \<Rightarrow> Panics p | Inr x \<Rightarrow> Returns x)"

subsection \<open>Generation 1: mask in place, serialise, restore\<close>

text \<open>
  \<open>scrubInternal(target, fieldName, ...)\<close> receives a pointer to a location: the
  caller's pointer at the top, \<open>fValue.Addr()\<close> or \<open>arrValue.Addr()\<close> in the recursive
  calls. The model has no pointers into the middle of a value, so the recursive calls
  pass the value held by the location and get its new value back:
  \<^item> \<open>scrubTarget1\<close> is the body of \<open>scrubInternal\<close> from \<open>targetType :=
    targetValue.Type()\<close> on, applied to the value of the location: a non-nil pointer is
    followed once, and the cell it leads to receives the result;
  \<^item> \<open>scrubValue1\<close> is the dispatch on the kind that comes after the dereference;
  \<^item> \<open>scrubFields1\<close> and \<open>scrubElems1\<close> are the two \<open>for\<close> loops;
  \<^item> \<open>scrubInternal1\<close>, further down, is the function as the caller sees it: the test
    \<open>addrValue.Kind() != reflect.Ptr\<close> and the first \<open>Elem()\<close>.

  Every location the walk reaches is addressable and was reached through exported
  fields only, so \<open>CanAddr()\<close> and \<open>CanSet()\<close> answer true there, and
  \<open>Addr().CanInterface()\<close> answers whether the field is exported. Writing a cell back
  after the walk of its value is what the in-place writes of the Go code amount to: a
  walk that meets a pointer to the cell it is walking meets it again at every level and
  never returns, in Go as here. Slices are held by value: two slices over one backing
  array are outside the model. In generations 1 and 2 an interface or a map is a leaf.

  The parameter \<open>mask\<close> of the source is \<open>masking\<close> here.
\<close>

definition DefaultToScrub1 :: "string \<rightharpoonup> bool" where
  "DefaultToScrub1 = [''password'' \<mapsto> True]"

record state1 =
  heap1 :: heap
  savedValues :: "string list"

function (sequential) scrubTarget1 ::
    "(string \<Rightarrow> string) \<Rightarrow>
     nat \<Rightarrow> val \<Rightarrow> string \<Rightarrow> (string \<rightharpoonup> bool) \<Rightarrow> bool \<Rightarrow> state1 \<Rightarrow> (val \<times> state1) outcome"
  and scrubValue1 ::
    "(string \<Rightarrow> string) \<Rightarrow>
     nat \<Rightarrow> val \<Rightarrow> string \<Rightarrow> (string \<rightharpoonup> bool) \<Rightarrow> bool \<Rightarrow> state1 \<Rightarrow> (val \<times> state1) outcome"
  and scrubFields1 ::
    "(string \<Rightarrow> string) \<Rightarrow> nat \<Rightarrow> (string \<times> bool \<times> val) list \<Rightarrow> (string \<rightharpoonup> bool) \<Rightarrow> bool \<Rightarrow> state1 \<Rightarrow>
       ((string \<times> bool \<times> val) list \<times> state1) outcome"
  and scrubElems1 ::
    "(string \<Rightarrow> string) \<Rightarrow> nat \<Rightarrow> val list \<Rightarrow> string \<Rightarrow> (string \<rightharpoonup> bool) \<Rightarrow> bool \<Rightarrow> state1 \<Rightarrow>
       (val list \<times> state1) outcome"
where
  "scrubTarget1 ToLower n v fieldName fieldsToScrub masking st =
     (case v of
        VPtr (Some a) \<Rightarrow>
          (case heap1 st a of
             None \<Rightarrow> Returns (v, st)
           | Some w \<Rightarrow>
               (case n of
                  0 \<Rightarrow> Diverges
                | Suc k \<Rightarrow>
                    bindO (scrubValue1 ToLower k w fieldName fieldsToScrub masking st) (\<lambda>(w', st').
                    Returns (v, st'\<lparr>heap1 := (heap1 st')(a \<mapsto> w')\<rparr>))))
      | _ \<Rightarrow> scrubValue1 ToLower n v fieldName fieldsToScrub masking st)"
| "scrubValue1 ToLower n v fieldName fieldsToScrub masking st =
     (case v of
        VStruct fs \<Rightarrow>
          bindO (scrubFields1 ToLower n fs fieldsToScrub masking st) (\<lambda>(fs', st').
          Returns (VStruct fs', st'))
      | VArray xs \<Rightarrow>
          bindO (scrubElems1 ToLower n xs fieldName fieldsToScrub masking st) (\<lambda>(xs', st').
          Returns (VArray xs', st'))
      | VSlice xs \<Rightarrow>
          bindO (scrubElems1 ToLower n xs fieldName fieldsToScrub masking st) (\<lambda>(xs', st').
          Returns (VSlice xs', st'))
      | VNilSlice \<Rightarrow> Returns (v, st)
      | _ \<Rightarrow>
          if fieldName = [] then Returns (v, st)
          else if fieldsToScrub (ToLower fieldName) \<noteq> None then
            (case v of
               VString s \<Rightarrow>
                 if s \<noteq> [] then
                   (if masking then
                      Returns (VString ''********'', st\<lparr>savedValues := savedValues st @ [s]\<rparr>)
                    else
                      (case savedValues st of
                         [] \<Rightarrow> Panics IndexOutOfRange
                       | x # rest \<Rightarrow> Returns (VString x, st\<lparr>savedValues := rest\<rparr>)))
                 else Returns (v, st)
             | _ \<Rightarrow> Returns (v, st))
          else Returns (v, st))"
| "scrubFields1 ToLower n [] fieldsToScrub masking st = Returns ([], st)"
| "scrubFields1 ToLower n ((fName, exported, fValue) # fs) fieldsToScrub masking st =
     (if \<not> exported then
        bindO (scrubFields1 ToLower n fs fieldsToScrub masking st) (\<lambda>(fs', st').
        Returns ((fName, exported, fValue) # fs', st'))
      else
        bindO (scrubTarget1 ToLower n fValue fName fieldsToScrub masking st) (\<lambda>(fValue', st').
        bindO (scrubFields1 ToLower n fs fieldsToScrub masking st') (\<lambda>(fs', st'').
        Returns ((fName, exported, fValue') # fs', st''))))"
| "scrubElems1 ToLower n [] fieldName fieldsToScrub masking st = Returns ([], st)"
| "scrubElems1 ToLower n (arrValue # xs) fieldName fieldsToScrub masking st =
     bindO (scrubTarget1 ToLower n arrValue fieldName fieldsToScrub masking st) (\<lambda>(arrValue', st').
     bindO (scrubElems1 ToLower n xs fieldName fieldsToScrub masking st') (\<lambda>(xs', st'').
     Returns (arrValue' # xs', st'')))"
  by pat_completeness auto

termination
  by (relation "inv_image (less_than <*lex*> less_than <*lex*> less_than)
        (\<lambda>x. case x of
           Inl (Inl (_, n, v, _)) \<Rightarrow> (n, size v, 2::nat)
         | Inl (Inr (_, n, v, _)) \<Rightarrow> (n, size v, 1)
         | Inr (Inl (_, n, fs, _)) \<Rightarrow>
             (n, size_list (size_prod (\<lambda>_. 0) (size_prod (\<lambda>_. 0) size)) fs, 0)
         | Inr (Inr (_, n, xs, _)) \<Rightarrow> (n, size_list size xs, 0))")
    auto

text \<open>The entry point: \<open>target\<close> is whatever the caller handed over as \<open>interface{}\<close>.\<close>

definition scrubInternal1 ::
  "(string \<Rightarrow> string) \<Rightarrow> nat \<Rightarrow> val \<Rightarrow> string \<Rightarrow> (string \<rightharpoonup> bool) \<Rightarrow> bool \<Rightarrow> state1 \<Rightarrow> state1 outcome" where
  "scrubInternal1 ToLower n target fieldName fieldsToScrub masking st =
     (case target of
        VPtr (Some a) \<Rightarrow>
          (case heap1 st a of
             None \<Rightarrow> Returns st
           | Some v \<Rightarrow>
               bindO (scrubTarget1 ToLower n v fieldName fieldsToScrub masking st) (\<lambda>(v', st').
               Returns (st'\<lparr>heap1 := (heap1 st')(a \<mapsto> v')\<rparr>)))
      | _ \<Rightarrow> Returns st)"

definition Scrub1 ::
  "(string \<Rightarrow> string) \<Rightarrow>
   nat \<Rightarrow> (heap \<Rightarrow> val \<Rightarrow> string option) \<Rightarrow> val option \<Rightarrow> (string \<rightharpoonup> bool) option \<Rightarrow> heap \<Rightarrow>
     (string \<times> heap) outcome" where
  "Scrub1 ToLower n json_Marshal input fieldsToScrub h =
     (case input of
        None \<Rightarrow> Returns (''null'', h)
      | Some target \<Rightarrow>
          (let toScrub = (case fieldsToScrub of None \<Rightarrow> DefaultToScrub1 | Some f \<Rightarrow> f) in
           bindO (scrubInternal1 ToLower n target [] toScrub True \<lparr>heap1 = h, savedValues = []\<rparr>)
             (\<lambda>st.
           let b = (case json_Marshal (heap1 st) target of None \<Rightarrow> [] | Some b \<Rightarrow> b) in
           bindO (scrubInternal1 ToLower n target [] toScrub False st) (\<lambda>st'.
           Returns (b, heap1 st')))))"

subsection \<open>Generation 2: clone, then mask the clone\<close>

text \<open>
  The walker of the second \<open>scrub.go\<close>: as generation 1 without the saved values; the
  mask is the policy's \<open>"symbol"\<close> entry (default \<open>*\<close>), of any length, repeated
  \<open>DefaultMaskLen\<close> times or once per byte of the value. \<open>MaskLenVary\<close> and
  \<open>DefaultMaskLen\<close> are package variables and are arguments here.
\<close>

function (sequential) scrubTarget2 ::
    "(string \<Rightarrow> string) \<Rightarrow> nat \<Rightarrow> bool \<Rightarrow> int \<Rightarrow> val \<Rightarrow> string \<Rightarrow> (string \<rightharpoonup> (string \<rightharpoonup> string)) \<Rightarrow> heap \<Rightarrow>
       (val \<times> heap) outcome"
  and scrubValue2 ::
    "(string \<Rightarrow> string) \<Rightarrow> nat \<Rightarrow> bool \<Rightarrow> int \<Rightarrow> val \<Rightarrow> string \<Rightarrow> (string \<rightharpoonup> (string \<rightharpoonup> string)) \<Rightarrow> heap \<Rightarrow>
       (val \<times> heap) outcome"
  and scrubFields2 ::
    "(string \<Rightarrow> string) \<Rightarrow>
     nat \<Rightarrow> bool \<Rightarrow> int \<Rightarrow> (string \<times> bool \<times> val) list \<Rightarrow> (string \<rightharpoonup> (string \<rightharpoonup> string)) \<Rightarrow> heap \<Rightarrow>
       ((string \<times> bool \<times> val) list \<times> heap) outcome"
  and scrubElems2 ::
    "(string \<Rightarrow> string) \<Rightarrow>
     nat \<Rightarrow> bool \<Rightarrow> int \<Rightarrow> val list \<Rightarrow> string \<Rightarrow> (string \<rightharpoonup> (string \<rightharpoonup> string)) \<Rightarrow> heap \<Rightarrow>
       (val list \<times> heap) outcome"
where
  "scrubTarget2 ToLower n MaskLenVary DefaultMaskLen v fieldName fieldsToScrub h =
     (case v of
        VPtr (Some a) \<Rightarrow>
          (case h a of
             None \<Rightarrow> Returns (v, h)
           | Some w \<Rightarrow>
               (case n of
                  0 \<Rightarrow> Diverges
                | Suc k \<Rightarrow>
                    bindO (scrubValue2 ToLower k MaskLenVary DefaultMaskLen w fieldName fieldsToScrub h)
                      (\<lambda>(w', h'). Returns (v, h'(a \<mapsto> w')))))
      | _ \<Rightarrow> scrubValue2 ToLower n MaskLenVary DefaultMaskLen v fieldName fieldsToScrub h)"
| "scrubValue2 ToLower n MaskLenVary DefaultMaskLen v fieldName fieldsToScrub h =
     (case v of
        VStruct fs \<Rightarrow>
          bindO (scrubFields2 ToLower n MaskLenVary DefaultMaskLen fs fieldsToScrub h) (\<lambda>(fs', h').
          Returns (VStruct fs', h'))
      | VArray xs \<Rightarrow>
          bindO (scrubElems2 ToLower n MaskLenVary DefaultMaskLen xs fieldName fieldsToScrub h)
            (\<lambda>(xs', h'). Returns (VArray xs', h'))
      | VSlice xs \<Rightarrow>
          bindO (scrubElems2 ToLower n MaskLenVary DefaultMaskLen xs fieldName fieldsToScrub h)
            (\<lambda>(xs', h'). Returns (VSlice xs', h'))
      | VNilSlice \<Rightarrow> Returns (v, h)
      | _ \<Rightarrow>
          if fieldName = [] then Returns (v, h)
          else
            (case fieldsToScrub (ToLower fieldName) of
               None \<Rightarrow> Returns (v, h)
             | Some opts \<Rightarrow>
                 (case v of
                    VString s \<Rightarrow>
                      if s \<noteq> [] then
                        (let symbol = (case opts ''symbol'' of Some x \<Rightarrow> x | None \<Rightarrow> ''*'') in
                         bindO (liftP (if MaskLenVary then Repeat symbol (int (length s))
                                       else Repeat symbol DefaultMaskLen))
                           (\<lambda>m. Returns (VString m, h)))
                      else Returns (v, h)
                  | _ \<Rightarrow> Returns (v, h))))"
| "scrubFields2 ToLower n MaskLenVary DefaultMaskLen [] fieldsToScrub h = Returns ([], h)"
| "scrubFields2 ToLower n MaskLenVary DefaultMaskLen ((fName, exported, fValue) # fs) fieldsToScrub h =
     (if \<not> exported then
        bindO (scrubFields2 ToLower n MaskLenVary DefaultMaskLen fs fieldsToScrub h) (\<lambda>(fs', h').
        Returns ((fName, exported, fValue) # fs', h'))
      else
        bindO (scrubTarget2 ToLower n MaskLenVary DefaultMaskLen fValue fName fieldsToScrub h)
          (\<lambda>(fValue', h').
        bindO (scrubFields2 ToLower n MaskLenVary DefaultMaskLen fs fieldsToScrub h') (\<lambda>(fs', h'').
        Returns ((fName, exported, fValue') # fs', h''))))"
| "scrubElems2 ToLower n MaskLenVary DefaultMaskLen [] fieldName fieldsToScrub h = Returns ([], h)"
| "scrubElems2 ToLower n MaskLenVary DefaultMaskLen (arrValue # xs) fieldName fieldsToScrub h =
     bindO (scrubTarget2 ToLower n MaskLenVary DefaultMaskLen arrValue fieldName fieldsToScrub h)
       (\<lambda>(arrValue', h').
     bindO (scrubElems2 ToLower n MaskLenVary DefaultMaskLen xs fieldName fieldsToScrub h')
       (\<lambda>(xs', h''). Returns (arrValue' # xs', h'')))"
  by pat_completeness auto

termination
  by (relation "inv_image (less_than <*lex*> less_than <*lex*> less_than)
        (\<lambda>x. case x of
           Inl (Inl (_, n, _, _, v, _)) \<Rightarrow> (n, size v, 2::nat)
         | Inl (Inr (_, n, _, _, v, _)) \<Rightarrow> (n, size v, 1)
         | Inr (Inl (_, n, _, _, fs, _)) \<Rightarrow>
             (n, size_list (size_prod (\<lambda>_. 0) (size_prod (\<lambda>_. 0) size)) fs, 0)
         | Inr (Inr (_, n, _, _, xs, _)) \<Rightarrow> (n, size_list size xs, 0))")
    auto

definition scrubInternal2 ::
  "(string \<Rightarrow> string) \<Rightarrow>
   nat \<Rightarrow> bool \<Rightarrow> int \<Rightarrow> val \<Rightarrow> string \<Rightarrow> (string \<rightharpoonup> (string \<rightharpoonup> string)) \<Rightarrow> heap \<Rightarrow> heap outcome" where
  "scrubInternal2 ToLower n MaskLenVary DefaultMaskLen target fieldName fieldsToScrub h =
     (case target of
        VPtr (Some a) \<Rightarrow>
          (case h a of
             None \<Rightarrow> Returns h
           | Some v \<Rightarrow>
               bindO (scrubTarget2 ToLower n MaskLenVary DefaultMaskLen v fieldName fieldsToScrub h)
                 (\<lambda>(v', h'). Returns (h'(a \<mapsto> v'))))
      | _ \<Rightarrow> Returns h)"

subsection \<open>Generation 3: the walker, with maps\<close>

text \<open>
  \<open>scrubTarget3\<close>, \<open>scrubValue3\<close>, \<open>scrubFields3\<close> and \<open>scrubElems3\<close> model
  \<open>scrubInternal\<close> as before. \<open>scrubInternalMap\<close> is the function of that name;
  \<open>scrubMapEntries\<close> is its loop over \<open>MapKeys()\<close> (\<open>v.Type().Kind()\<close> is
  \<open>Interface\<close> unless the element type is \<open>ElemNotInterface\<close>) and
  \<open>scrubMapElems\<close> its inner loop over the elements of a sequence. A map is held by
  value, its entries visited in list order. \<open>SetMapIndex(reflect.ValueOf(k.String()),
  reflect.ValueOf(mask))\<close> hands over a key and an element of type \<open>string\<close>: it
  stores the mask, wrapped in an interface, when the key type is \<open>string\<close> and the
  element type the empty interface, and panics otherwise. \<open>arrValue.Elem()\<close> panics
  unless the element is an interface or a pointer; through a pointer the map is found in
  the heap.
\<close>

function (sequential) scrubTarget3 ::
    "(string \<Rightarrow> string) \<Rightarrow> nat \<Rightarrow> bool \<Rightarrow> val \<Rightarrow> string \<Rightarrow> fieldsToScrub \<Rightarrow> heap \<Rightarrow> (val \<times> heap) outcome"
  and scrubValue3 ::
    "(string \<Rightarrow> string) \<Rightarrow> nat \<Rightarrow> bool \<Rightarrow> val \<Rightarrow> string \<Rightarrow> fieldsToScrub \<Rightarrow> heap \<Rightarrow> (val \<times> heap) outcome"
  and scrubFields3 ::
    "(string \<Rightarrow> string) \<Rightarrow> nat \<Rightarrow> bool \<Rightarrow> (string \<times> bool \<times> val) list \<Rightarrow> fieldsToScrub \<Rightarrow> heap \<Rightarrow>
       ((string \<times> bool \<times> val) list \<times> heap) outcome"
  and scrubElems3 ::
    "(string \<Rightarrow> string) \<Rightarrow>
     nat \<Rightarrow> bool \<Rightarrow> val list \<Rightarrow> string \<Rightarrow> fieldsToScrub \<Rightarrow> heap \<Rightarrow> (val list \<times> heap) outcome"
  and scrubInternalMap ::
    "(string \<Rightarrow> string) \<Rightarrow> nat \<Rightarrow> bool \<Rightarrow> val \<Rightarrow> fieldsToScrub \<Rightarrow> heap \<Rightarrow> (val \<times> heap) outcome"
  and scrubMapEntries ::
    "(string \<Rightarrow> string) \<Rightarrow> nat \<Rightarrow> bool \<Rightarrow> bool \<Rightarrow> elemtype \<Rightarrow> (string \<times> val) list \<Rightarrow> fieldsToScrub \<Rightarrow> heap \<Rightarrow>
       ((string \<times> val) list \<times> heap) outcome"
  and scrubMapElems ::
    "(string \<Rightarrow> string) \<Rightarrow> nat \<Rightarrow> bool \<Rightarrow> val list \<Rightarrow> fieldsToScrub \<Rightarrow> heap \<Rightarrow> (val list \<times> heap) outcome"
where
  "scrubTarget3 ToLower n MaskLenVary v fieldName fieldsToScrub h =
     (case v of
        VPtr (Some a) \<Rightarrow>
          (case h a of
             None \<Rightarrow> Returns (v, h)
           | Some w \<Rightarrow>
               (case n of
                  0 \<Rightarrow> Diverges
                | Suc k \<Rightarrow>
                    bindO (scrubValue3 ToLower k MaskLenVary w fieldName fieldsToScrub h)
                      (\<lambda>(w', h'). Returns (v, h'(a \<mapsto> w')))))
      | _ \<Rightarrow> scrubValue3 ToLower n MaskLenVary v fieldName fieldsToScrub h)"
| "scrubValue3 ToLower n MaskLenVary v fieldName fieldsToScrub h =
     (case v of
        VStruct fs \<Rightarrow>
          bindO (scrubFields3 ToLower n MaskLenVary fs fieldsToScrub h) (\<lambda>(fs', h').
          Returns (VStruct fs', h'))
      | VArray xs \<Rightarrow>
          bindO (scrubElems3 ToLower n MaskLenVary xs fieldName fieldsToScrub h) (\<lambda>(xs', h').
          Returns (VArray xs', h'))
      | VSlice xs \<Rightarrow>
          bindO (scrubElems3 ToLower n MaskLenVary xs fieldName fieldsToScrub h) (\<lambda>(xs', h').
          Returns (VSlice xs', h'))
      | VNilSlice \<Rightarrow> Returns (v, h)
      | VMap keyIsString elemType es \<Rightarrow> scrubInternalMap ToLower n MaskLenVary v fieldsToScrub h
      | VNilMap \<Rightarrow> scrubInternalMap ToLower n MaskLenVary v fieldsToScrub h
      | _ \<Rightarrow>
          if fieldName = [] then Returns (v, h)
          else
            bindO (liftP (doMasking ToLower MaskLenVary v True fieldName fieldsToScrub True))
              (\<lambda>(m, ok). if ok then Returns (VString m, h) else Returns (v, h)))"
| "scrubFields3 ToLower n MaskLenVary [] fieldsToScrub h = Returns ([], h)"
| "scrubFields3 ToLower n MaskLenVary ((fName, exported, fValue) # fs) fieldsToScrub h =
     (if \<not> exported then
        bindO (scrubFields3 ToLower n MaskLenVary fs fieldsToScrub h) (\<lambda>(fs', h').
        Returns ((fName, exported, fValue) # fs', h'))
      else
        bindO (scrubTarget3 ToLower n MaskLenVary fValue fName fieldsToScrub h) (\<lambda>(fValue', h').
        bindO (scrubFields3 ToLower n MaskLenVary fs fieldsToScrub h') (\<lambda>(fs', h'').
        Returns ((fName, exported, fValue') # fs', h''))))"
| "scrubElems3 ToLower n MaskLenVary [] fieldName fieldsToScrub h = Returns ([], h)"
| "scrubElems3 ToLower n MaskLenVary (arrValue # xs) fieldName fieldsToScrub h =
     bindO (scrubTarget3 ToLower n MaskLenVary arrValue fieldName fieldsToScrub h) (\<lambda>(arrValue', h').
     bindO (scrubElems3 ToLower n MaskLenVary xs fieldName fieldsToScrub h') (\<lambda>(xs', h'').
     Returns (arrValue' # xs', h'')))"
| "scrubInternalMap ToLower n MaskLenVary targetMap fieldsToScrub h =
     (case targetMap of
        VMap keyIsString elemType es \<Rightarrow>
          bindO (scrubMapEntries ToLower n MaskLenVary keyIsString elemType es fieldsToScrub h)
            (\<lambda>(es', h'). Returns (VMap keyIsString elemType es', h'))
      | _ \<Rightarrow> Returns (targetMap, h))"
| "scrubMapEntries ToLower n MaskLenVary keyIsString elemType [] fieldsToScrub h = Returns ([], h)"
| "scrubMapEntries ToLower n MaskLenVary keyIsString elemType ((k, v) # es) fieldsToScrub h =
     (if elemType = ElemNotInterface then
        bindO (scrubMapEntries ToLower n MaskLenVary keyIsString elemType es fieldsToScrub h)
          (\<lambda>(es', h'). Returns ((k, v) # es', h'))
      else
        bindO
          (case v of
             VIface (Some (VString s)) \<Rightarrow>
               bindO (liftP (doMasking ToLower MaskLenVary (VString s) False k fieldsToScrub False))
                 (\<lambda>(m, ok).
                    if ok then
                      (if keyIsString \<and> elemType = ElemEmptyInterface
                       then Returns (VIface (Some (VString m)), h)
                       else Panics NotAssignable)
                    else Returns (v, h))
           | VIface (Some (VArray xs)) \<Rightarrow>
               bindO (scrubMapElems ToLower n MaskLenVary xs fieldsToScrub h) (\<lambda>(xs', h').
               Returns (VIface (Some (VArray xs')), h'))
           | VIface (Some (VSlice xs)) \<Rightarrow>
               bindO (scrubMapElems ToLower n MaskLenVary xs fieldsToScrub h) (\<lambda>(xs', h').
               Returns (VIface (Some (VSlice xs')), h'))
           | _ \<Rightarrow> Returns (v, h))
          (\<lambda>(v', h').
        bindO (scrubMapEntries ToLower n MaskLenVary keyIsString elemType es fieldsToScrub h')
          (\<lambda>(es', h''). Returns ((k, v') # es', h''))))"
| "scrubMapElems ToLower n MaskLenVary [] fieldsToScrub h = Returns ([], h)"
| "scrubMapElems ToLower n MaskLenVary (arrValue # xs) fieldsToScrub h =
     bindO
       (case arrValue of
          VIface (Some (VMap keyIsString elemType es)) \<Rightarrow>
            bindO (scrubInternalMap ToLower n MaskLenVary (VMap keyIsString elemType es) fieldsToScrub h)
              (\<lambda>(m', h'). Returns (VIface (Some m'), h'))
        | VIface _ \<Rightarrow> Returns (arrValue, h)
        | VPtr None \<Rightarrow> Returns (arrValue, h)
        | VPtr (Some a) \<Rightarrow>
            (case h a of
               Some (VMap keyIsString elemType es) \<Rightarrow>
                 (case n of
                    0 \<Rightarrow> Diverges
                  | Suc k \<Rightarrow>
                      bindO (scrubInternalMap ToLower k MaskLenVary (VMap keyIsString elemType es)
                               fieldsToScrub h)
                        (\<lambda>(m', h'). Returns (arrValue, h'(a \<mapsto> m'))))
             | _ \<Rightarrow> Returns (arrValue, h))
        | _ \<Rightarrow> Panics ElemOfNonPointer)
       (\<lambda>(arrValue', h').
     bindO (scrubMapElems ToLower n MaskLenVary xs fieldsToScrub h') (\<lambda>(xs', h'').
     Returns (arrValue' # xs', h'')))"
  by pat_completeness auto

termination
  by (relation "inv_image (less_than <*lex*> less_than <*lex*> less_than)
        (\<lambda>x. case x of
           Inl (Inl (_, n, _, v, _)) \<Rightarrow> (n, size v, 2::nat)
         | Inl (Inr (Inl (_, n, _, v, _))) \<Rightarrow> (n, size v, 1)
         | Inl (Inr (Inr (_, n, _, fs, _))) \<Rightarrow>
             (n, size_list (size_prod (\<lambda>_. 0) (size_prod (\<lambda>_. 0) size)) fs, 0)
         | Inr (Inl (Inl (_, n, _, xs, _))) \<Rightarrow> (n, size_list size xs, 0)
         | Inr (Inl (Inr (_, n, _, m, _))) \<Rightarrow> (n, size m, 0)
         | Inr (Inr (Inl (_, n, _, _, _, es, _))) \<Rightarrow>
             (n, size_list (size_prod (\<lambda>_. 0) size) es, 0)
         | Inr (Inr (Inr (_, n, _, xs, _))) \<Rightarrow> (n, size_list size xs, 0))")
    auto

definition scrubInternal3 ::
  "(string \<Rightarrow> string) \<Rightarrow> nat \<Rightarrow> bool \<Rightarrow> val \<Rightarrow> string \<Rightarrow> fieldsToScrub \<Rightarrow> heap \<Rightarrow> heap outcome" where
  "scrubInternal3 ToLower n MaskLenVary target fieldName fieldsToScrub h =
     (case target of
        VPtr (Some a) \<Rightarrow>
          (case h a of
             None \<Rightarrow> Returns h
           | Some v \<Rightarrow>
               bindO (scrubTarget3 ToLower n MaskLenVary v fieldName fieldsToScrub h)
                 (\<lambda>(v', h'). Returns (h'(a \<mapsto> v'))))
      | _ \<Rightarrow> Returns h)"

subsection \<open>Generation 3: the non-destructive wrapper\<close>

text \<open>\<open>reflect.Value.IsZero\<close>, kind by kind.\<close>

fun IsZero :: "val \<Rightarrow> bool"
  and IsZeroFields :: "(string \<times> bool \<times> val) list \<Rightarrow> bool"
  and IsZeroElems :: "val list \<Rightarrow> bool"
where
  "IsZero (VString s) = (s = [])"
| "IsZero (VOther z) = z"
| "IsZero (VPtr p) = (p = None)"
| "IsZero (VIface i) = (i = None)"
| "IsZero (VStruct fs) = IsZeroFields fs"
| "IsZero (VArray xs) = IsZeroElems xs"
| "IsZero (VSlice xs) = False"
| "IsZero VNilSlice = True"
| "IsZero (VMap keyIsString elemType es) = False"
| "IsZero VNilMap = True"
| "IsZeroFields [] = True"
| "IsZeroFields ((fName, exported, fValue) # fs) = (IsZero fValue \<and> IsZeroFields fs)"
| "IsZeroElems [] = True"
| "IsZeroElems (x # xs) = (IsZero x \<and> IsZeroElems xs)"

definition invalidInput :: "val option \<Rightarrow> val option \<Rightarrow> bool" where
  "invalidInput cloning target =
     (case cloning of
        None \<Rightarrow> True
      | Some c \<Rightarrow> (case target of None \<Rightarrow> True | Some t \<Rightarrow> IsZero c \<or> IsZero t))"

text \<open>
  The Format Codec is outside the repository (\<open>encoding/json\<close>, \<open>encoding/xml\<close>) and is a
  parameter: \<open>Marshal\<close> renders a value or fails; \<open>Unmarshal\<close> writes into the heap
  behind its receptacle and reports whether it succeeded.
\<close>

record codec =
  Marshal :: "heap \<Rightarrow> val \<Rightarrow> string option"
  Unmarshal :: "string \<Rightarrow> val \<Rightarrow> heap \<Rightarrow> heap \<times> bool"

definition Scrub3 ::
  "(string \<Rightarrow> string) \<Rightarrow>
   nat \<Rightarrow> bool \<Rightarrow> codec \<Rightarrow> codec \<Rightarrow> val option \<Rightarrow> val option \<Rightarrow> fieldsToScrub option \<Rightarrow> string \<Rightarrow>
     heap \<Rightarrow> (string \<times> heap) outcome" where
  "Scrub3 ToLower n MaskLenVary json xml cloning target fieldsToScrub dataType h =
     (if invalidInput cloning target then
        (if dataType = JSONScrub then Returns (''null'', h)
         else if dataType = XMLScrub then Returns ([], h)
         else Returns (''null'', h))
      else
        (case (cloning, target) of
           (Some c, Some t) \<Rightarrow>
             (let enc = (if dataType = JSONScrub then json else xml);
                  empty = (if dataType = JSONScrub then ''null'' else []) in
              if dataType \<noteq> JSONScrub \<and> dataType \<noteq> XMLScrub then Returns (''null'', h)
              else
                (case Marshal enc h t of
                   None \<Rightarrow> Returns (empty, h)
                 | Some b \<Rightarrow>
                     (case Unmarshal enc b c h of
                        (h1, False) \<Rightarrow> Returns (empty, h1)
                      | (h1, True) \<Rightarrow>
                          (let toScrub = (case fieldsToScrub of
                                            None \<Rightarrow> defaultToScrub | Some f \<Rightarrow> f) in
                           bindO (scrubInternal3 ToLower n MaskLenVary c [] toScrub h1) (\<lambda>h2.
                           (case Marshal enc h2 c of
                              None \<Rightarrow> Returns (empty, h2)
                            | Some out \<Rightarrow> Returns (out, h2)))))))
         | _ \<Rightarrow> Returns (''null'', h)))"

subsection \<open>JSON documents, as the specification speaks of keyed maps\<close>

text \<open>
  What \<open>json.Unmarshal\<close> stores in a \<open>map[string]interface{}\<close>: strings, other scalars
  (numbers and booleans), null, \<open>[]interface{}\<close> and nested \<open>map[string]interface{}\<close>.
  \<open>embed\<close> gives the Go value of a document.

  The definitions after it follow the specification's words and never call the code's
  \<open>doMasking\<close>. \<open>spec_mask\<close> is the Masking Strategy on a non-empty string: the
  decision order of section 4.2 over the three masks of the specification, with a panic
  where a partial mask is asked for more visible bytes than the string has.
  \<open>spec_entry_string\<close> is what becomes of a string entry: left alone when its
  lower-cased key has no policy or the string is empty, masked otherwise.
  \<open>spec_scrub_object\<close> and \<open>spec_scrub_elems\<close> are the walk over a keyed map: a
  string entry is masked under its key, a sequence entry is recursed into map by map,
  anything else is left as it is.
\<close>

datatype json =
    JString string
  | JOther bool
  | JNull
  | JArray "json list"
  | JObject "(string \<times> json) list"

fun embed :: "json \<Rightarrow> val"
  and embed_entries :: "(string \<times> json) list \<Rightarrow> (string \<times> val) list"
  and embed_elems :: "json list \<Rightarrow> val list"
where
  "embed (JString s) = VIface (Some (VString s))"
| "embed (JOther z) = VIface (Some (VOther z))"
| "embed JNull = VIface None"
| "embed (JArray xs) = VIface (Some (VSlice (embed_elems xs)))"
| "embed (JObject kvs) = VIface (Some (VMap True ElemEmptyInterface (embed_entries kvs)))"
| "embed_entries [] = []"
| "embed_entries ((k, v) # kvs) = (k, embed v) # embed_entries kvs"
| "embed_elems [] = []"
| "embed_elems (x # xs) = embed x # embed_elems xs"

definition spec_mask :: "bool \<Rightarrow> FieldScrubOptioner option \<Rightarrow> string \<Rightarrow> panic + string" where
  "spec_mask MaskLenVary opts s =
     (let c = spec_symbol opts; n = int (length s) in
      case opts of
        None \<Rightarrow> Inr (spec_full_mask MaskLenVary c s)
      | Some po \<Rightarrow>
          if \<not> PartMaskEnabled po then Inr (spec_full_mask MaskLenVary c s)
          else if n < PartMaskMinFldLen po then Inr (spec_full_mask MaskLenVary c s)
          else if n > PartMaskMaxFldLen po then Inr (spec_full_mask MaskLenVary c s)
          else if n < PartMaskVisibleBackOnlyIfFldLenGreaterThan po then
            (if 0 \<le> PartMaskVisibleFrontLen po \<and> PartMaskVisibleFrontLen po \<le> n
             then Inr (spec_front_visible c (nat (PartMaskVisibleFrontLen po)) s)
             else Inl SliceBoundsOutOfRange)
          else
            (if 0 \<le> PartMaskVisibleFrontLen po \<and> 0 \<le> PartMaskVisibleBackLen po \<and>
                PartMaskVisibleFrontLen po + PartMaskVisibleBackLen po \<le> n
             then Inr (spec_middle_visible c (nat (PartMaskVisibleFrontLen po))
                         (nat (PartMaskVisibleBackLen po)) s)
             else if 0 \<le> PartMaskVisibleFrontLen po \<and> PartMaskVisibleFrontLen po \<le> n \<and>
                     0 \<le> PartMaskVisibleBackLen po \<and> PartMaskVisibleBackLen po \<le> n
             then Inl NegativeRepeatCount
             else Inl SliceBoundsOutOfRange))"

definition spec_entry_string ::
    "(string \<Rightarrow> string) \<Rightarrow> bool \<Rightarrow> fieldsToScrub \<Rightarrow> string \<Rightarrow> string \<Rightarrow> panic + string" where
  "spec_entry_string ToLower MaskLenVary fieldsToScrub k s =
     (case fieldsToScrub (ToLower k) of
        None \<Rightarrow> Inr s
      | Some opts \<Rightarrow> if s = [] then Inr s else spec_mask MaskLenVary opts s)"

fun spec_scrub_object ::
    "(string \<Rightarrow> string) \<Rightarrow> bool \<Rightarrow> fieldsToScrub \<Rightarrow> (string \<times> json) list \<Rightarrow>
       panic + (string \<times> json) list"
  and spec_scrub_elems ::
    "(string \<Rightarrow> string) \<Rightarrow> bool \<Rightarrow> fieldsToScrub \<Rightarrow> json list \<Rightarrow> panic + json list"
where
  "spec_scrub_object ToLower MaskLenVary fieldsToScrub [] = Inr []"
| "spec_scrub_object ToLower MaskLenVary fieldsToScrub ((k, JString s) # kvs) =
     bindP (spec_entry_string ToLower MaskLenVary fieldsToScrub k s) (\<lambda>s'.
     bindP (spec_scrub_object ToLower MaskLenVary fieldsToScrub kvs) (\<lambda>kvs'.
     Inr ((k, JString s') # kvs')))"
| "spec_scrub_object ToLower MaskLenVary fieldsToScrub ((k, JArray xs) # kvs) =
     bindP (spec_scrub_elems ToLower MaskLenVary fieldsToScrub xs) (\<lambda>xs'.
     bindP (spec_scrub_object ToLower MaskLenVary fieldsToScrub kvs) (\<lambda>kvs'.
     Inr ((k, JArray xs') # kvs')))"
| "spec_scrub_object ToLower MaskLenVary fieldsToScrub ((k, v) # kvs) =
     bindP (spec_scrub_object ToLower MaskLenVary fieldsToScrub kvs) (\<lambda>kvs'.
     Inr ((k, v) # kvs'))"
| "spec_scrub_elems ToLower MaskLenVary fieldsToScrub [] = Inr []"
| "spec_scrub_elems ToLower MaskLenVary fieldsToScrub (JObject kvs # xs) =
     bindP (spec_scrub_object ToLower MaskLenVary fieldsToScrub kvs) (\<lambda>kvs'.
     bindP (spec_scrub_elems ToLower MaskLenVary fieldsToScrub xs) (\<lambda>xs'.
     Inr (JObject kvs' # xs')))"
| "spec_scrub_elems ToLower MaskLenVary fieldsToScrub (x # xs) =
     bindP (spec_scrub_elems ToLower MaskLenVary fieldsToScrub xs) (\<lambda>xs'.
     Inr (x # xs'))"

subsection \<open>Values of the README and of the tests\<close>

text \<open>
  \<^verbatim>\<open>in := &Inner{Password: "secret"}; o := &Outer{A: in, B: in}\<close>: cell 2 holds the
  \<open>Outer\<close>, cell 3 the \<open>Inner\<close> that both fields of the \<open>Outer\<close> point to.
\<close>

definition aliased_heap :: heap where
  "aliased_heap =
     [2 \<mapsto> VStruct [(''A'', True, VPtr (Some 3)), (''B'', True, VPtr (Some 3))],
      3 \<mapsto> VStruct [(''Password'', True, VString ''secret'')]]"

text \<open>
  The value of the README (generation 1), and the policy and the \<open>MapData\<close> document of
  \<open>TestScrubNestedMapSupportPartialMask\<close> (generation 3).
\<close>

definition partPolicy :: FieldScrubOptioner where
  "partPolicy = \<lparr>GetMaskingSymbol = ''*'', PartMaskEnabled = True,
      PartMaskMinFldLen = 10, PartMaskMaxFldLen = 19, PartMaskVisibleFrontLen = 6,
      PartMaskVisibleBackOnlyIfFldLenGreaterThan = 16, PartMaskVisibleBackLen = 4\<rparr>"

definition mapPolicies :: fieldsToScrub where
  "mapPolicies = [''91'' \<mapsto> Some partPolicy, ''86'' \<mapsto> Some partPolicy, ''password'' \<mapsto> None]"

definition MapData :: "string \<Rightarrow> (string \<times> json) list" where
  "MapData target =
     [(''72'', JArray [JObject [(''86'', JString target)], JObject [(''86'', JString target)],
                       JObject [(''77'', JString ''84240000083AB8700FAE0CB0DD'')]]),
      (''91'', JString target)]"

definition testScrub :: heap where
  "testScrub =
     [2 \<mapsto> VStruct [(''Username'', True, VString ''administrator''),
                      (''Password'', True, VString ''my_secret_passphrase''),
                      (''Codes'', True, VSlice [VString ''pass1'', VString ''pass2'',
                                               VString ''pass3''])]]"

subsection \<open>Values without pointers, and what restoring means\<close>

text \<open>
  \<open>no_pointers v\<close>: no non-nil pointer among the locations the walker of generation 1
  visits in \<open>v\<close> (slices are held by value, so none of them shares its elements).
  \<open>restores1 walk x\<close>: from any state the mask pass over \<open>x\<close> returns, leaves the
  heap alone and appends some strings to \<open>savedValues\<close>; and a restore pass over the
  masked \<open>x'\<close> that finds these strings in front of \<open>savedValues\<close> returns \<open>x\<close>
  and has consumed exactly them.
\<close>

fun no_pointers :: "val \<Rightarrow> bool"
  and no_pointers_fields :: "(string \<times> bool \<times> val) list \<Rightarrow> bool"
  and no_pointers_elems :: "val list \<Rightarrow> bool"
where
  "no_pointers (VPtr p) = (p = None)"
| "no_pointers (VStruct fs) = no_pointers_fields fs"
| "no_pointers (VArray xs) = no_pointers_elems xs"
| "no_pointers (VSlice xs) = no_pointers_elems xs"
| "no_pointers (VString s) = True"
| "no_pointers (VOther z) = True"
| "no_pointers (VIface i) = True"
| "no_pointers VNilSlice = True"
| "no_pointers (VMap keyIsString elemType es) = True"
| "no_pointers VNilMap = True"
| "no_pointers_fields [] = True"
| "no_pointers_fields ((fName, exported, fValue) # fs) =
     (no_pointers fValue \<and> no_pointers_fields fs)"
| "no_pointers_elems [] = True"
| "no_pointers_elems (x # xs) = (no_pointers x \<and> no_pointers_elems xs)"

definition restores1 ::
  "(nat \<Rightarrow> 'a \<Rightarrow> bool \<Rightarrow> state1 \<Rightarrow> ('a \<times> state1) outcome) \<Rightarrow> 'a \<Rightarrow> bool" where
  "restores1 walk x \<longleftrightarrow>
     (\<forall>n st. \<exists>x' pushed.
        walk n x True st = Returns (x', st\<lparr>savedValues := savedValues st @ pushed\<rparr>) \<and>
        (\<forall>k st2 rest. walk k x' False (st2\<lparr>savedValues := pushed @ rest\<rparr>)
                          = Returns (x, st2\<lparr>savedValues := rest\<rparr>)))"

section \<open>Field names, lower-cased\<close>

text \<open>The names used by the README and the tests, evaluated once.\<close>

lemma ToLowerASCII_digits:
  "ToLowerASCII ''72'' = ''72''" "ToLowerASCII ''86'' = ''86''" "ToLowerASCII ''77'' = ''77''"
  "ToLowerASCII ''91'' = ''91''"
  by (simp_all add: ToLowerASCII_def lower_char_def char_of_def bit_Suc_0_iff)

lemma ToLowerASCII_Codes: "ToLowerASCII ''Codes'' = ''codes''"
  by (simp add: ToLowerASCII_def lower_char_def char_of_def bit_Suc_0_iff)

lemma ToLowerASCII_Username: "ToLowerASCII ''Username'' = ''username''"
  by (simp add: ToLowerASCII_def lower_char_def char_of_def bit_Suc_0_iff)

lemma ToLowerASCII_Password: "ToLowerASCII ''Password'' = ''password''"
  by (simp add: ToLowerASCII_def lower_char_def char_of_def bit_Suc_0_iff)

lemma ToLowerASCII_Keys: "ToLowerASCII ''Keys'' = ''keys''"
  by (simp add: ToLowerASCII_def lower_char_def char_of_def bit_Suc_0_iff)

lemma ToLowerASCII_password: "ToLowerASCII ''password'' = ''password''"
  by (simp add: ToLowerASCII_def lower_char_def char_of_def bit_Suc_0_iff)

section \<open>Properties of the masking strategy\<close>

subsection \<open>Library functions on a one-byte symbol\<close>

lemma bindP_simps [simp]:
  "bindP (Inl p) f = Inl p"
  "bindP (Inr x) f = f x"
  by (simp_all add: bindP_def)

lemma Repeat_single:
  "Repeat [c] n = (if n < 0 then Inl NegativeRepeatCount else Inr (replicate (nat n) c))"
proof -
  have "concat (replicate k [c]) = replicate k c" for k
    by (induction k) simp_all
  then show ?thesis by (simp add: Repeat_def)
qed

lemma slice_prefix:
  "slice s 0 hi = (if 0 \<le> hi \<and> hi \<le> int (length s) then Inr (take (nat hi) s)
                   else Inl SliceBoundsOutOfRange)"
  by (simp add: slice_def)

lemma slice_suffix:
  "slice s (int (length s) - b) (int (length s)) =
     (if 0 \<le> b \<and> b \<le> int (length s) then Inr (drop (length s - nat b) s)
      else Inl SliceBoundsOutOfRange)"
proof (cases "0 \<le> b \<and> b \<le> int (length s)")
  case True
  then have "nat (int (length s) - b) = length s - nat b" by linarith
  with True show ?thesis by (simp add: slice_def)
next
  case False
  then show ?thesis by (auto simp: slice_def)
qed

lemma applyFullMask_single:
  "0 \<le> n \<Longrightarrow> applyFullMask [c] n = Inr (replicate (nat n) c)"
  by (simp add: applyFullMask_def Repeat_single)

lemma applyPartBackMask_single:
  "applyPartBackMask s [c] vf =
     (if 0 \<le> vf \<and> vf \<le> int (length s) then Inr (spec_front_visible c (nat vf) s)
      else Inl SliceBoundsOutOfRange)"
proof (cases "0 \<le> vf \<and> vf \<le> int (length s)")
  case True
  then have "nat (int (length s) - vf) = length s - nat vf" by linarith
  with True show ?thesis
    by (simp add: applyPartBackMask_def slice_prefix Repeat_single spec_front_visible_def)
next
  case False
  then show ?thesis by (auto simp: applyPartBackMask_def slice_prefix)
qed

lemma applyPartMiddleMask_single:
  "applyPartMiddleMask s [c] vf vb =
     (if \<not> (0 \<le> vf \<and> vf \<le> int (length s)) then Inl SliceBoundsOutOfRange
      else if \<not> (0 \<le> vb \<and> vb \<le> int (length s)) then Inl SliceBoundsOutOfRange
      else if int (length s) < vf + vb then Inl NegativeRepeatCount
      else Inr (spec_middle_visible c (nat vf) (nat vb) s))"
proof -
  consider (a) "\<not> (0 \<le> vf \<and> vf \<le> int (length s))"
    | (b) "0 \<le> vf \<and> vf \<le> int (length s)" "\<not> (0 \<le> vb \<and> vb \<le> int (length s))"
    | (c) "0 \<le> vf \<and> vf \<le> int (length s)" "0 \<le> vb \<and> vb \<le> int (length s)"
          "int (length s) < vf + vb"
    | (d) "0 \<le> vf" "0 \<le> vb" "vf + vb \<le> int (length s)"
    by linarith
  then show ?thesis
  proof cases
    case a
    then show ?thesis by (auto simp: applyPartMiddleMask_def slice_prefix)
  next
    case b
    then show ?thesis by (auto simp: applyPartMiddleMask_def slice_prefix slice_suffix)
  next
    case c
    then have "int (length s) - vf - vb < 0" by linarith
    with c show ?thesis
      by (simp add: applyPartMiddleMask_def slice_prefix slice_suffix Repeat_single)
  next
    case d
    then have "nat (int (length s) - vf - vb) = length s - nat vf - nat vb" by linarith
    with d show ?thesis
      by (simp add: applyPartMiddleMask_def slice_prefix slice_suffix Repeat_single
          spec_middle_visible_def)
  qed
qed

lemma resolved_symbol:
  "(case opts of
      Some po \<Rightarrow> if length (GetMaskingSymbol po) = 1 then GetMaskingSymbol po
                 else defaultMaskSymbol
    | None \<Rightarrow> defaultMaskSymbol) = [spec_symbol opts]"
  by (auto simp: spec_symbol_def defaultMaskSymbol_def length_Suc_conv
      split: option.splits list.splits)

lemma full_mask_single:
  "bindP (applyFullMask [c] (maskLen MaskLenVary (int (length s)))) (\<lambda>m. Inr (m, True)) =
     Inr (spec_full_mask MaskLenVary c s, True)"
  by (simp add: applyFullMask_single maskLen_def defaultMaskLen_def spec_full_mask_def)

lemma doMasking_matched:
  assumes "fieldsToScrub (ToLower fieldName) = Some opts" and "s \<noteq> []"
    and "checkCanSet \<longrightarrow> canSet"
  shows "doMasking ToLower MaskLenVary (VString s) canSet fieldName fieldsToScrub checkCanSet =
     (let c = spec_symbol opts; n = int (length s);
          full = Inr (spec_full_mask MaskLenVary c s, True) in
      case opts of
        None \<Rightarrow> full
      | Some po \<Rightarrow>
          if \<not> PartMaskEnabled po then full
          else if n < PartMaskMinFldLen po then full
          else if n > PartMaskMaxFldLen po then full
          else if n < PartMaskVisibleBackOnlyIfFldLenGreaterThan po then
            (if 0 \<le> PartMaskVisibleFrontLen po \<and> PartMaskVisibleFrontLen po \<le> n
             then Inr (spec_front_visible c (nat (PartMaskVisibleFrontLen po)) s, True)
             else Inl SliceBoundsOutOfRange)
          else
            (if \<not> (0 \<le> PartMaskVisibleFrontLen po \<and> PartMaskVisibleFrontLen po \<le> n)
             then Inl SliceBoundsOutOfRange
             else if \<not> (0 \<le> PartMaskVisibleBackLen po \<and> PartMaskVisibleBackLen po \<le> n)
             then Inl SliceBoundsOutOfRange
             else if n < PartMaskVisibleFrontLen po + PartMaskVisibleBackLen po
             then Inl NegativeRepeatCount
             else Inr (spec_middle_visible c (nat (PartMaskVisibleFrontLen po))
                        (nat (PartMaskVisibleBackLen po)) s, True)))"
  using assms
  unfolding doMasking_def resolved_symbol
  by (simp add: Let_def full_mask_single applyPartBackMask_single applyPartMiddleMask_single
      split: option.splits)

section \<open>Properties of the walkers\<close>

subsection \<open>Sequencing\<close>

lemma bindO_simps [simp]:
  "bindO (Returns x) f = f x"
  "bindO (Panics p) f = Panics p"
  "bindO Diverges f = Diverges"
  by (simp_all add: bindO_def)

lemma liftP_simps [simp]:
  "liftP (Inl p) = Panics p"
  "liftP (Inr x) = Returns x"
  by (simp_all add: liftP_def)

lemma doMasking_empty:
  "doMasking ToLower MaskLenVary (VString []) canSet fieldName fieldsToScrub checkCanSet = Inr ([], False)"
  by (simp add: doMasking_def split: option.splits)

subsection \<open>The walk over a decoded document\<close>

lemma scrubMapEntries_static:
  "scrubMapEntries ToLower n MaskLenVary keyIsString ElemNotInterface es fieldsToScrub h = Returns (es, h)"
  by (induction es) auto

text \<open>
  On a string \<open>doMasking\<close> agrees with the Masking Strategy of the specification: no
  mask without a policy or on the empty string, \<open>spec_mask\<close> otherwise.
\<close>

lemma doMasking_spec_mask:
  assumes "fieldsToScrub (ToLower fieldName) = Some opts" and "s \<noteq> []"
    and "checkCanSet \<longrightarrow> canSet"
  shows "doMasking ToLower MaskLenVary (VString s) canSet fieldName fieldsToScrub checkCanSet =
           bindP (spec_mask MaskLenVary opts s) (\<lambda>m. Inr (m, True))"
  using assms
  by (auto simp: doMasking_matched [where opts = opts] spec_mask_def Let_def
      split: option.splits)

lemma doMasking_map_entry:
  "bindP (doMasking ToLower MaskLenVary (VString s) False k fieldsToScrub False)
     (\<lambda>(m, ok). Inr (if ok then m else s)) = spec_entry_string ToLower MaskLenVary fieldsToScrub k s"
proof (cases "fieldsToScrub (ToLower k)")
  case None
  then show ?thesis
    by (simp add: doMasking_def spec_entry_string_def)
next
  case (Some opts)
  show ?thesis
  proof (cases "s = []")
    case True
    with Some show ?thesis
      by (simp add: doMasking_empty spec_entry_string_def)
  next
    case False
    with Some show ?thesis
      by (cases "spec_mask MaskLenVary opts s")
        (simp_all add: doMasking_spec_mask [where opts = opts] spec_entry_string_def)
  qed
qed

lemma scrub_json_object_elems:
  "scrubMapEntries ToLower n MaskLenVary True ElemEmptyInterface (embed_entries kvs) fieldsToScrub h =
     (case spec_scrub_object ToLower MaskLenVary fieldsToScrub kvs of
        Inl p \<Rightarrow> Panics p
      | Inr kvs' \<Rightarrow> Returns (embed_entries kvs', h))"
  "scrubMapElems ToLower n MaskLenVary (embed_elems xs) fieldsToScrub h =
     (case spec_scrub_elems ToLower MaskLenVary fieldsToScrub xs of
        Inl p \<Rightarrow> Panics p
      | Inr xs' \<Rightarrow> Returns (embed_elems xs', h))"
proof (induction ToLower MaskLenVary fieldsToScrub kvs and ToLower MaskLenVary fieldsToScrub xs
    rule: spec_scrub_object_spec_scrub_elems.induct)
  case (2 ToLower MaskLenVary fieldsToScrub k s kvs)
  show ?case
  proof (cases "doMasking ToLower MaskLenVary (VString s) False k fieldsToScrub False")
    case (Inl p)
    with doMasking_map_entry [of ToLower MaskLenVary s k fieldsToScrub]
    have "spec_entry_string ToLower MaskLenVary fieldsToScrub k s = Inl p"
      by simp
    with Inl show ?thesis
      by simp
  next
    case (Inr r)
    obtain m ok where r: "r = (m, ok)" by (cases r)
    from Inr r doMasking_map_entry [of ToLower MaskLenVary s k fieldsToScrub]
    have "spec_entry_string ToLower MaskLenVary fieldsToScrub k s = Inr (if ok then m else s)"
      by simp
    with Inr r 2 show ?thesis
      by (auto split: sum.splits)
  qed
qed (auto split: sum.splits)

text \<open>
  Outside decoded documents the loop over a sequence is not total: an element that is
  neither an interface nor a pointer, as in an entry holding a \<open>[]string\<close>, makes
  \<open>arrValue.Elem()\<close> panic.
\<close>

lemma scrubInternalMap_typed_slice_panics:
  "scrubInternalMap ToLower n MaskLenVary
     (VMap True ElemEmptyInterface ((k, VIface (Some (VSlice (VString s # xs)))) # es))
     fieldsToScrub h = Panics ElemOfNonPointer"
  by simp

subsection \<open>Mask and restore on a value without pointers\<close>

text \<open>
  Where the walk of generation 1 cannot meet a string twice, the replay of
  \<open>savedValues\<close> does restore the value: by induction on the value, the second pass
  pops what the first pushed, in the same order. The lemma is about the values of the
  model, in which every slice has its backing array to itself: a Go value with two slices
  over one backing array meets its strings twice, like \<open>aliased_heap\<close>, and is not
  covered.
\<close>

lemma restores1_I:
  assumes "\<And>n st. \<exists>x' pushed.
        walk n x True st = Returns (x', st\<lparr>savedValues := savedValues st @ pushed\<rparr>) \<and>
        (\<forall>k st2 rest. walk k x' False (st2\<lparr>savedValues := pushed @ rest\<rparr>)
                          = Returns (x, st2\<lparr>savedValues := rest\<rparr>))"
  shows "restores1 walk x"
  using assms unfolding restores1_def by blast

lemma restores1_same:
  assumes "\<And>n masking st. walk n x masking st = Returns (x, st)"
  shows "restores1 walk x"
  unfolding restores1_def
proof (intro allI)
  fix n st
  show "\<exists>x' pushed.
        walk n x True st = Returns (x', st\<lparr>savedValues := savedValues st @ pushed\<rparr>) \<and>
        (\<forall>k st2 rest. walk k x' False (st2\<lparr>savedValues := pushed @ rest\<rparr>)
                          = Returns (x, st2\<lparr>savedValues := rest\<rparr>))"
    by (rule exI [of _ x], rule exI [of _ "[]"]) (simp add: assms)
qed

lemma restores1_string:
  "restores1 (\<lambda>n v. scrubTarget1 ToLower n v fieldName toScrub) (VString s)"
proof (cases "fieldName \<noteq> [] \<and> toScrub (ToLower fieldName) \<noteq> None \<and> s \<noteq> []")
  case True
  show ?thesis
    unfolding restores1_def
  proof (intro allI)
    fix n st
    show "\<exists>x' pushed.
        scrubTarget1 ToLower n (VString s) fieldName toScrub True st
          = Returns (x', st\<lparr>savedValues := savedValues st @ pushed\<rparr>) \<and>
        (\<forall>k st2 rest. scrubTarget1 ToLower k x' fieldName toScrub False (st2\<lparr>savedValues := pushed @ rest\<rparr>)
                          = Returns (VString s, st2\<lparr>savedValues := rest\<rparr>))"
      using True
      by (intro exI [of _ "VString ''********''"] exI [of _ "[s]"]) auto
  qed
next
  case False
  then show ?thesis
    by (intro restores1_same) auto
qed

lemma restores1_D:
  assumes "restores1 walk x"
  shows "\<exists>x' pushed.
           walk n x True st = Returns (x', st\<lparr>savedValues := savedValues st @ pushed\<rparr>) \<and>
           (\<forall>k st2 rest. walk k x' False (st2\<lparr>savedValues := pushed @ rest\<rparr>)
                             = Returns (x, st2\<lparr>savedValues := rest\<rparr>))"
  using assms unfolding restores1_def by blast

lemma restores1_struct:
  assumes "restores1 (\<lambda>n fs. scrubFields1 ToLower n fs toScrub) fs"
  shows "restores1 (\<lambda>n v. scrubTarget1 ToLower n v fieldName toScrub) (VStruct fs)"
proof (rule restores1_I)
  fix n st
  from restores1_D [OF assms, of n "st"] obtain fs' pushed where
    m: "scrubFields1 ToLower n fs toScrub True st
          = Returns (fs', st\<lparr>savedValues := savedValues st @ pushed\<rparr>)"
    and r: "\<And>k st2 rest. scrubFields1 ToLower k fs' toScrub False (st2\<lparr>savedValues := pushed @ rest\<rparr>)
                      = Returns (fs, st2\<lparr>savedValues := rest\<rparr>)"
    by auto
  show "\<exists>x' pushed.
          scrubTarget1 ToLower n (VStruct fs) fieldName toScrub True st
            = Returns (x', st\<lparr>savedValues := savedValues st @ pushed\<rparr>) \<and>
          (\<forall>k st2 rest. scrubTarget1 ToLower k x' fieldName toScrub False
                             (st2\<lparr>savedValues := pushed @ rest\<rparr>)
                           = Returns (VStruct fs, st2\<lparr>savedValues := rest\<rparr>))"
    by (intro exI [of _ "VStruct fs'"] exI [of _ pushed]) (simp add: m r)
qed

lemma restores1_array:
  assumes "restores1 (\<lambda>n xs. scrubElems1 ToLower n xs fieldName toScrub) xs"
  shows "restores1 (\<lambda>n v. scrubTarget1 ToLower n v fieldName toScrub) (VArray xs)"
proof (rule restores1_I)
  fix n st
  from restores1_D [OF assms, of n "st"] obtain xs' pushed where
    m: "scrubElems1 ToLower n xs fieldName toScrub True st
          = Returns (xs', st\<lparr>savedValues := savedValues st @ pushed\<rparr>)"
    and r: "\<And>k st2 rest. scrubElems1 ToLower k xs' fieldName toScrub False
                               (st2\<lparr>savedValues := pushed @ rest\<rparr>)
                      = Returns (xs, st2\<lparr>savedValues := rest\<rparr>)"
    by auto
  show "\<exists>x' pushed.
          scrubTarget1 ToLower n (VArray xs) fieldName toScrub True st
            = Returns (x', st\<lparr>savedValues := savedValues st @ pushed\<rparr>) \<and>
          (\<forall>k st2 rest. scrubTarget1 ToLower k x' fieldName toScrub False
                             (st2\<lparr>savedValues := pushed @ rest\<rparr>)
                           = Returns (VArray xs, st2\<lparr>savedValues := rest\<rparr>))"
    by (intro exI [of _ "VArray xs'"] exI [of _ pushed]) (simp add: m r)
qed

lemma restores1_slice:
  assumes "restores1 (\<lambda>n xs. scrubElems1 ToLower n xs fieldName toScrub) xs"
  shows "restores1 (\<lambda>n v. scrubTarget1 ToLower n v fieldName toScrub) (VSlice xs)"
proof (rule restores1_I)
  fix n st
  from restores1_D [OF assms, of n "st"] obtain xs' pushed where
    m: "scrubElems1 ToLower n xs fieldName toScrub True st
          = Returns (xs', st\<lparr>savedValues := savedValues st @ pushed\<rparr>)"
    and r: "\<And>k st2 rest. scrubElems1 ToLower k xs' fieldName toScrub False
                               (st2\<lparr>savedValues := pushed @ rest\<rparr>)
                      = Returns (xs, st2\<lparr>savedValues := rest\<rparr>)"
    by auto
  show "\<exists>x' pushed.
          scrubTarget1 ToLower n (VSlice xs) fieldName toScrub True st
            = Returns (x', st\<lparr>savedValues := savedValues st @ pushed\<rparr>) \<and>
          (\<forall>k st2 rest. scrubTarget1 ToLower k x' fieldName toScrub False
                             (st2\<lparr>savedValues := pushed @ rest\<rparr>)
                           = Returns (VSlice xs, st2\<lparr>savedValues := rest\<rparr>))"
    by (intro exI [of _ "VSlice xs'"] exI [of _ pushed]) (simp add: m r)
qed

lemma restores1_fields_Cons:
  assumes v: "restores1 (\<lambda>n v. scrubTarget1 ToLower n v fName toScrub) fValue"
    and fs: "restores1 (\<lambda>n fs. scrubFields1 ToLower n fs toScrub) fs"
  shows "restores1 (\<lambda>n fs. scrubFields1 ToLower n fs toScrub) ((fName, exported, fValue) # fs)"
proof (rule restores1_I)
  fix n st
  show "\<exists>x' pushed.
          scrubFields1 ToLower n ((fName, exported, fValue) # fs) toScrub True st
            = Returns (x', st\<lparr>savedValues := savedValues st @ pushed\<rparr>) \<and>
          (\<forall>k st2 rest. scrubFields1 ToLower k x' toScrub False (st2\<lparr>savedValues := pushed @ rest\<rparr>)
                           = Returns ((fName, exported, fValue) # fs,
                                      st2\<lparr>savedValues := rest\<rparr>))"
  proof (cases exported)
    case False
    from restores1_D [OF fs, of n "st"] obtain fs' p2 where
      m2: "scrubFields1 ToLower n fs toScrub True st
             = Returns (fs', st\<lparr>savedValues := savedValues st @ p2\<rparr>)"
      and r2: "\<And>k st2 rest. scrubFields1 ToLower k fs' toScrub False (st2\<lparr>savedValues := p2 @ rest\<rparr>)
                      = Returns (fs, st2\<lparr>savedValues := rest\<rparr>)"
      by auto
    show ?thesis
      using False
      by (intro exI [of _ "(fName, exported, fValue) # fs'"] exI [of _ p2]) (simp add: m2 r2)
  next
    case True
    from restores1_D [OF v, of n "st"] obtain v' p1 where
      m1: "scrubTarget1 ToLower n fValue fName toScrub True st
             = Returns (v', st\<lparr>savedValues := savedValues st @ p1\<rparr>)"
      and r1: "\<And>k st2 rest. scrubTarget1 ToLower k v' fName toScrub False
                                 (st2\<lparr>savedValues := p1 @ rest\<rparr>)
                      = Returns (fValue, st2\<lparr>savedValues := rest\<rparr>)"
      by auto
    from restores1_D [OF fs, of n "st\<lparr>savedValues := savedValues st @ p1\<rparr>"] obtain fs' p2 where
      m2: "scrubFields1 ToLower n fs toScrub True (st\<lparr>savedValues := savedValues st @ p1\<rparr>)
             = Returns (fs', st\<lparr>savedValues := savedValues st @ p1\<rparr>
                              \<lparr>savedValues := savedValues
                                   (st\<lparr>savedValues := savedValues st @ p1\<rparr>) @ p2\<rparr>)"
      and r2: "\<And>k st2 rest. scrubFields1 ToLower k fs' toScrub False (st2\<lparr>savedValues := p2 @ rest\<rparr>)
                      = Returns (fs, st2\<lparr>savedValues := rest\<rparr>)"
      by auto
    show ?thesis
      using True
      by (intro exI [of _ "(fName, exported, v') # fs'"] exI [of _ "p1 @ p2"])
        (simp add: m1 m2 r1 r2 del: scrubTarget1.simps)
  qed
qed

lemma restores1_elems_Cons:
  assumes v: "restores1 (\<lambda>n v. scrubTarget1 ToLower n v fieldName toScrub) x"
    and xs: "restores1 (\<lambda>n xs. scrubElems1 ToLower n xs fieldName toScrub) xs"
  shows "restores1 (\<lambda>n xs. scrubElems1 ToLower n xs fieldName toScrub) (x # xs)"
proof (rule restores1_I)
  fix n st
  from restores1_D [OF v, of n "st"] obtain v' p1 where
    m1: "scrubTarget1 ToLower n x fieldName toScrub True st
           = Returns (v', st\<lparr>savedValues := savedValues st @ p1\<rparr>)"
    and r1: "\<And>k st2 rest. scrubTarget1 ToLower k v' fieldName toScrub False
                               (st2\<lparr>savedValues := p1 @ rest\<rparr>)
                    = Returns (x, st2\<lparr>savedValues := rest\<rparr>)"
    by auto
  from restores1_D [OF xs, of n "st\<lparr>savedValues := savedValues st @ p1\<rparr>"] obtain xs' p2 where
    m2: "scrubElems1 ToLower n xs fieldName toScrub True (st\<lparr>savedValues := savedValues st @ p1\<rparr>)
           = Returns (xs', st\<lparr>savedValues := savedValues st @ p1\<rparr>
                            \<lparr>savedValues := savedValues
                                 (st\<lparr>savedValues := savedValues st @ p1\<rparr>) @ p2\<rparr>)"
    and r2: "\<And>k st2 rest. scrubElems1 ToLower k xs' fieldName toScrub False
                               (st2\<lparr>savedValues := p2 @ rest\<rparr>)
                    = Returns (xs, st2\<lparr>savedValues := rest\<rparr>)"
    by auto
  show "\<exists>x' pushed.
          scrubElems1 ToLower n (x # xs) fieldName toScrub True st
            = Returns (x', st\<lparr>savedValues := savedValues st @ pushed\<rparr>) \<and>
          (\<forall>k st2 rest. scrubElems1 ToLower k x' fieldName toScrub False
                             (st2\<lparr>savedValues := pushed @ rest\<rparr>)
                           = Returns (x # xs, st2\<lparr>savedValues := rest\<rparr>))"
    by (intro exI [of _ "v' # xs'"] exI [of _ "p1 @ p2"]) (simp add: m1 m2 r1 r2 del: scrubTarget1.simps)
qed

lemma restores1_mutual:
  "no_pointers v \<Longrightarrow> restores1 (\<lambda>n v. scrubTarget1 ToLower n v fieldName toScrub) v"
  "no_pointers_fields fs \<Longrightarrow> restores1 (\<lambda>n fs. scrubFields1 ToLower n fs toScrub) fs"
  "no_pointers_elems xs \<Longrightarrow> restores1 (\<lambda>n xs. scrubElems1 ToLower n xs fieldName toScrub) xs"
proof (induction v and fs and xs arbitrary: fieldName and and fieldName
    rule: no_pointers_no_pointers_fields_no_pointers_elems.induct)
  case (1 p)
  then show ?case by (intro restores1_same) simp
next
  case (2 fs)
  then have "restores1 (\<lambda>n fs. scrubFields1 ToLower n fs toScrub) fs" by simp
  then show ?case by (rule restores1_struct)
next
  case (3 xs)
  then have "restores1 (\<lambda>n xs. scrubElems1 ToLower n xs fieldName toScrub) xs" by simp
  then show ?case by (rule restores1_array)
next
  case (4 xs)
  then have "restores1 (\<lambda>n xs. scrubElems1 ToLower n xs fieldName toScrub) xs" by simp
  then show ?case by (rule restores1_slice)
next
  case (5 s)
  show ?case by (rule restores1_string)
next
  case (12 fName exported fValue fs)
  then have "restores1 (\<lambda>n v. scrubTarget1 ToLower n v fName toScrub) fValue"
    and "restores1 (\<lambda>n fs. scrubFields1 ToLower n fs toScrub) fs"
    by (simp_all del: scrubTarget1.simps)
  then show ?case by (rule restores1_fields_Cons)
next
  case (14 x xs)
  then have "restores1 (\<lambda>n v. scrubTarget1 ToLower n v fieldName toScrub) x"
    and "restores1 (\<lambda>n xs. scrubElems1 ToLower n xs fieldName toScrub) xs"
    by (simp_all del: scrubTarget1.simps)
  then show ?case by (rule restores1_elems_Cons)
qed (rule restores1_same; simp)+

lemma Scrub1_restores_without_pointers:
  assumes "h a = Some v" and "no_pointers v"
  shows "\<exists>out. Scrub1 ToLower n json_Marshal (Some (VPtr (Some a))) fieldsToScrub h = Returns (out, h)"
proof -
  define toScrub where "toScrub = (case fieldsToScrub of None \<Rightarrow> DefaultToScrub1 | Some f \<Rightarrow> f)"
  from restores1_D [OF restores1_mutual(1) [OF assms(2), of ToLower "[]" toScrub], of n
      "\<lparr>heap1 = h, savedValues = []\<rparr>"]
  obtain v' pushed where
    m: "scrubTarget1 ToLower n v [] toScrub True \<lparr>heap1 = h, savedValues = []\<rparr>
          = Returns (v', \<lparr>heap1 = h, savedValues = pushed\<rparr>)"
    and r: "\<And>k t rest. scrubTarget1 ToLower k v' [] toScrub False (t\<lparr>savedValues := pushed @ rest\<rparr>)
                = Returns (v, t\<lparr>savedValues := rest\<rparr>)"
    by auto
  have r': "scrubTarget1 ToLower n v' [] toScrub False \<lparr>heap1 = h(a \<mapsto> v'), savedValues = pushed\<rparr>
              = Returns (v, \<lparr>heap1 = h(a \<mapsto> v'), savedValues = []\<rparr>)"
    using r [of n "[]" "\<lparr>heap1 = h(a \<mapsto> v'), savedValues = []\<rparr>"] by simp
  have undo: "h(a \<mapsto> v) = h"
    using assms(1) by (auto simp: fun_eq_iff)
  show ?thesis
    unfolding Scrub1_def scrubInternal1_def toScrub_def [symmetric]
    using assms(1)
    by (simp add: m r' undo Let_def del: scrubTarget1.simps)
qed

subsection \<open>The README, run on the model\<close>

text \<open>
  The model gives what the README documents: the value is serialised with
  \<open>Password\<close> and every element of \<open>Codes\<close> replaced by \<open>"********"\<close> and is
  restored afterwards.
\<close>

lemma README_example:
  "Scrub1 ToLowerASCII 0 json_Marshal (Some (VPtr (Some 2)))
     (Some [''password'' \<mapsto> True, ''codes'' \<mapsto> True]) testScrub
   = Returns
       (case json_Marshal
               [2 \<mapsto> VStruct [(''Username'', True, VString ''administrator''),
                      (''Password'', True, VString ''********''),
                      (''Codes'', True, VSlice [VString ''********'', VString ''********'',
                                               VString ''********''])]]
               (VPtr (Some 2)) of
          None \<Rightarrow> [] | Some b \<Rightarrow> b,
        testScrub)"
proof -
  have m: "scrubInternal1 ToLowerASCII 0 (VPtr (Some 2)) [] [''password'' \<mapsto> True, ''codes'' \<mapsto> True] True
             \<lparr>heap1 = testScrub, savedValues = []\<rparr>
           = Returns \<lparr>heap1 = [2 \<mapsto> VStruct [(''Username'', True, VString ''administrator''),
                      (''Password'', True, VString ''********''),
                      (''Codes'', True, VSlice [VString ''********'', VString ''********'',
                                               VString ''********''])]],
                savedValues = [''my_secret_passphrase'', ''pass1'', ''pass2'', ''pass3'']\<rparr>"
    by (simp add: scrubInternal1_def testScrub_def ToLowerASCII_Username ToLowerASCII_Password
        ToLowerASCII_Codes)
  have r: "scrubInternal1 ToLowerASCII 0 (VPtr (Some 2)) [] [''password'' \<mapsto> True, ''codes'' \<mapsto> True] False
             \<lparr>heap1 = [2 \<mapsto> VStruct [(''Username'', True, VString ''administrator''),
                      (''Password'', True, VString ''********''),
                      (''Codes'', True, VSlice [VString ''********'', VString ''********'',
                                               VString ''********''])]],
              savedValues = [''my_secret_passphrase'', ''pass1'', ''pass2'', ''pass3'']\<rparr>
           = Returns \<lparr>heap1 = testScrub, savedValues = []\<rparr>"
    by (simp add: scrubInternal1_def testScrub_def ToLowerASCII_Username ToLowerASCII_Password
        ToLowerASCII_Codes)
  show ?thesis
    unfolding Scrub1_def by (simp add: m r Let_def)
qed

subsection \<open>Decision order of partial masking\<close>

text \<open>
  Claim C2, as amended. For a non-empty string whose field matches a policy with partial
  masking enabled, \<open>doMasking\<close> decides in this order: shorter than the minimum length,
  full mask; else longer than the maximum, full mask; else shorter than the back-visible
  threshold, the front-visible mask (the first \<open>visibleFrontLen\<close> bytes kept, the
  rest of the original length filled with the symbol) provided
  \<open>0 \<le> visibleFrontLen \<le> len(value)\<close>, and a panic otherwise; else, the length
  being at most the maximum, the middle-visible mask (first \<open>visibleFrontLen\<close> and
  last \<open>visibleBackLen\<close> bytes kept, the symbol between) provided both lengths are
  non-negative and together at most \<open>len(value)\<close>, and a panic otherwise; the final
  full-mask fallback is never reached.
\<close>

theorem doMasking_decision_order:
  assumes "fieldsToScrub (ToLower fieldName) = Some (Some po)"
    and "PartMaskEnabled po" and "s \<noteq> []" and "checkCanSet \<longrightarrow> canSet"
  shows "doMasking ToLower MaskLenVary (VString s) canSet fieldName fieldsToScrub checkCanSet =
     (let n = int (length s); c = spec_symbol (Some po);
          front = PartMaskVisibleFrontLen po; back = PartMaskVisibleBackLen po in
      if n < PartMaskMinFldLen po then Inr (spec_full_mask MaskLenVary c s, True)
      else if n > PartMaskMaxFldLen po then Inr (spec_full_mask MaskLenVary c s, True)
      else if n < PartMaskVisibleBackOnlyIfFldLenGreaterThan po then
        (if 0 \<le> front \<and> front \<le> n then Inr (spec_front_visible c (nat front) s, True)
         else Inl SliceBoundsOutOfRange)
      else if n \<le> PartMaskMaxFldLen po then
        (if 0 \<le> front \<and> 0 \<le> back \<and> front + back \<le> n
         then Inr (spec_middle_visible c (nat front) (nat back) s, True)
         else if 0 \<le> front \<and> front \<le> n \<and> 0 \<le> back \<and> back \<le> n
         then Inl NegativeRepeatCount
         else Inl SliceBoundsOutOfRange)
      else Inr (spec_full_mask MaskLenVary c s, True))"
  using assms by (auto simp: doMasking_matched Let_def)

theorem doMasking_decision_order_witness:
  "doMasking ToLowerASCII True (VString ''1234567891111111111'') True ''Username''
     [''username'' \<mapsto> Some \<lparr>GetMaskingSymbol = ''*'', PartMaskEnabled = True,
      PartMaskMinFldLen = 10, PartMaskMaxFldLen = 19, PartMaskVisibleFrontLen = 6,
      PartMaskVisibleBackOnlyIfFldLenGreaterThan = 16, PartMaskVisibleBackLen = 4\<rparr>] True
   = Inr (''123456*********1111'', True)"
  using doMasking_decision_order [of
      "[''username'' \<mapsto> Some \<lparr>GetMaskingSymbol = ''*'', PartMaskEnabled = True,
      PartMaskMinFldLen = 10, PartMaskMaxFldLen = 19, PartMaskVisibleFrontLen = 6,
      PartMaskVisibleBackOnlyIfFldLenGreaterThan = 16, PartMaskVisibleBackLen = 4\<rparr>]" ToLowerASCII
      "''Username''" _ "''1234567891111111111''" True True True]
  by (simp add: ToLowerASCII_Username spec_symbol_def spec_middle_visible_def Let_def)

text \<open>
  As the claim is worded, for every string value, it fails at two inputs. The empty
  string is shorter than the minimum and gets no mask at all: \<open>doMasking\<close> answers
  \<open>("", false)\<close>, where a full mask of fixed length is \<open>"********"\<close>. And a value of
  10 bytes under a policy with \<open>visibleFrontLen = 11\<close> is in the front-visible branch
  and gets a panic, not a mask.
\<close>

theorem doMasking_decision_order_counterexample:
  "doMasking ToLowerASCII False (VString []) True ''Username''
     [''username'' \<mapsto> Some \<lparr>GetMaskingSymbol = ''*'', PartMaskEnabled = True,
      PartMaskMinFldLen = 10, PartMaskMaxFldLen = 19, PartMaskVisibleFrontLen = 6,
      PartMaskVisibleBackOnlyIfFldLenGreaterThan = 16, PartMaskVisibleBackLen = 4\<rparr>] True
     = Inr ([], False) \<and>
   int (length ([] :: string)) < 10 \<and>
   spec_full_mask False CHR ''*'' [] = ''********'' \<and>
   doMasking ToLowerASCII True (VString ''1234567891'') True ''Username''
     [''username'' \<mapsto> Some \<lparr>GetMaskingSymbol = ''*'', PartMaskEnabled = True,
      PartMaskMinFldLen = 10, PartMaskMaxFldLen = 19, PartMaskVisibleFrontLen = 11,
      PartMaskVisibleBackOnlyIfFldLenGreaterThan = 16, PartMaskVisibleBackLen = 4\<rparr>] True
     = Inl SliceBoundsOutOfRange"
  by (simp add: doMasking_empty doMasking_matched [where opts = "Some _"] ToLowerASCII_Username
      spec_full_mask_def Let_def eval_nat_numeral)

subsection \<open>The boundaries exercised by the tests\<close>

text \<open>
  Claim C3, as amended. With \<open>MaskLenVary\<close> enabled and the thresholds minimum 10,
  maximum 19, visible front 6, back-visible threshold 16, visible back 4: a value of
  length 9 gets a full mask of length 9; one of length 15 keeps its first 6 bytes,
  followed by 9 symbols; one of length 20 gets a full mask of length 20; one of length 19,
  exactly the maximum, keeps 6 bytes in front and 4 at the back with 9 symbols between.
\<close>

theorem partial_mask_boundaries:
  assumes "fieldsToScrub (ToLower fieldName) = Some (Some po)"
    and "PartMaskEnabled po"
    and "PartMaskMinFldLen po = 10" and "PartMaskMaxFldLen po = 19"
    and "PartMaskVisibleFrontLen po = 6"
    and "PartMaskVisibleBackOnlyIfFldLenGreaterThan po = 16"
    and "PartMaskVisibleBackLen po = 4"
    and "checkCanSet \<longrightarrow> canSet"
  shows "(length s = 9 \<longrightarrow>
            doMasking ToLower True (VString s) canSet fieldName fieldsToScrub checkCanSet =
              Inr (replicate 9 (spec_symbol (Some po)), True)) \<and>
         (length s = 15 \<longrightarrow>
            doMasking ToLower True (VString s) canSet fieldName fieldsToScrub checkCanSet =
              Inr (take 6 s @ replicate 9 (spec_symbol (Some po)), True)) \<and>
         (length s = 20 \<longrightarrow>
            doMasking ToLower True (VString s) canSet fieldName fieldsToScrub checkCanSet =
              Inr (replicate 20 (spec_symbol (Some po)), True)) \<and>
         (length s = 19 \<longrightarrow>
            doMasking ToLower True (VString s) canSet fieldName fieldsToScrub checkCanSet =
              Inr (take 6 s @ replicate 9 (spec_symbol (Some po)) @ drop 15 s, True))"
proof -
  have ne: "s \<noteq> []" if "length s = k" "0 < k" for k
    using that by auto
  show ?thesis
    using assms
    by (auto simp: doMasking_matched [where opts = "Some po"] ne Let_def spec_full_mask_def
        spec_front_visible_def spec_middle_visible_def)
qed

theorem partial_mask_boundaries_witness:
  "doMasking ToLowerASCII True (VString ''123456789'') True ''Username''
     [''username'' \<mapsto> Some \<lparr>GetMaskingSymbol = ''*'', PartMaskEnabled = True,
      PartMaskMinFldLen = 10, PartMaskMaxFldLen = 19, PartMaskVisibleFrontLen = 6,
      PartMaskVisibleBackOnlyIfFldLenGreaterThan = 16, PartMaskVisibleBackLen = 4\<rparr>] True
     = Inr (''*********'', True) \<and>
   doMasking ToLowerASCII True (VString ''123456789111111'') True ''Username''
     [''username'' \<mapsto> Some \<lparr>GetMaskingSymbol = ''*'', PartMaskEnabled = True,
      PartMaskMinFldLen = 10, PartMaskMaxFldLen = 19, PartMaskVisibleFrontLen = 6,
      PartMaskVisibleBackOnlyIfFldLenGreaterThan = 16, PartMaskVisibleBackLen = 4\<rparr>] True
     = Inr (''123456*********'', True) \<and>
   doMasking ToLowerASCII True (VString ''12345678911111111110'') True ''Username''
     [''username'' \<mapsto> Some \<lparr>GetMaskingSymbol = ''*'', PartMaskEnabled = True,
      PartMaskMinFldLen = 10, PartMaskMaxFldLen = 19, PartMaskVisibleFrontLen = 6,
      PartMaskVisibleBackOnlyIfFldLenGreaterThan = 16, PartMaskVisibleBackLen = 4\<rparr>] True
     = Inr (''********************'', True) \<and>
   doMasking ToLowerASCII True (VString ''1234567891111111111'') True ''Username''
     [''username'' \<mapsto> Some \<lparr>GetMaskingSymbol = ''*'', PartMaskEnabled = True,
      PartMaskMinFldLen = 10, PartMaskMaxFldLen = 19, PartMaskVisibleFrontLen = 6,
      PartMaskVisibleBackOnlyIfFldLenGreaterThan = 16, PartMaskVisibleBackLen = 4\<rparr>] True
     = Inr (''123456*********1111'', True)"
  using
    partial_mask_boundaries [of
      "[''username'' \<mapsto> Some \<lparr>GetMaskingSymbol = ''*'', PartMaskEnabled = True,
      PartMaskMinFldLen = 10, PartMaskMaxFldLen = 19, PartMaskVisibleFrontLen = 6,
      PartMaskVisibleBackOnlyIfFldLenGreaterThan = 16, PartMaskVisibleBackLen = 4\<rparr>]" ToLowerASCII
      "''Username''" _ True True "''123456789''"]
    partial_mask_boundaries [of
      "[''username'' \<mapsto> Some \<lparr>GetMaskingSymbol = ''*'', PartMaskEnabled = True,
      PartMaskMinFldLen = 10, PartMaskMaxFldLen = 19, PartMaskVisibleFrontLen = 6,
      PartMaskVisibleBackOnlyIfFldLenGreaterThan = 16, PartMaskVisibleBackLen = 4\<rparr>]" ToLowerASCII
      "''Username''" _ True True "''123456789111111''"]
    partial_mask_boundaries [of
      "[''username'' \<mapsto> Some \<lparr>GetMaskingSymbol = ''*'', PartMaskEnabled = True,
      PartMaskMinFldLen = 10, PartMaskMaxFldLen = 19, PartMaskVisibleFrontLen = 6,
      PartMaskVisibleBackOnlyIfFldLenGreaterThan = 16, PartMaskVisibleBackLen = 4\<rparr>]" ToLowerASCII
      "''Username''" _ True True "''12345678911111111110''"]
    partial_mask_boundaries [of
      "[''username'' \<mapsto> Some \<lparr>GetMaskingSymbol = ''*'', PartMaskEnabled = True,
      PartMaskMinFldLen = 10, PartMaskMaxFldLen = 19, PartMaskVisibleFrontLen = 6,
      PartMaskVisibleBackOnlyIfFldLenGreaterThan = 16, PartMaskVisibleBackLen = 4\<rparr>]" ToLowerASCII
      "''Username''" _ True True "''1234567891111111111''"]
  by (simp add: ToLowerASCII_Username spec_symbol_def eval_nat_numeral)

text \<open>
  As the claim is worded it fails twice. It does not say that \<open>MaskLenVary\<close> is
  enabled: with the flag off, which is its initial value, the value of length 9 gets the
  fixed mask of length 8. And it asks for a middle-visible mask at "length 20 exactly at
  max": the maximum is 19, and the value of length 20 gets the full mask, as the claim
  itself says one clause earlier.
\<close>

theorem partial_mask_boundaries_counterexample:
  "doMasking ToLowerASCII False (VString ''123456789'') True ''Username''
     [''username'' \<mapsto> Some \<lparr>GetMaskingSymbol = ''*'', PartMaskEnabled = True,
      PartMaskMinFldLen = 10, PartMaskMaxFldLen = 19, PartMaskVisibleFrontLen = 6,
      PartMaskVisibleBackOnlyIfFldLenGreaterThan = 16, PartMaskVisibleBackLen = 4\<rparr>] True
     = Inr (''********'', True) \<and>
   length ''********'' \<noteq> length ''123456789'' \<and>
   doMasking ToLowerASCII True (VString ''12345678911111111110'') True ''Username''
     [''username'' \<mapsto> Some \<lparr>GetMaskingSymbol = ''*'', PartMaskEnabled = True,
      PartMaskMinFldLen = 10, PartMaskMaxFldLen = 19, PartMaskVisibleFrontLen = 6,
      PartMaskVisibleBackOnlyIfFldLenGreaterThan = 16, PartMaskVisibleBackLen = 4\<rparr>] True
     = Inr (''********************'', True) \<and>
   ''********************'' \<noteq> ''123456**********1110''"
  by (simp add: doMasking_matched [where opts = "Some _"] ToLowerASCII_Username
      spec_symbol_def spec_full_mask_def Let_def eval_nat_numeral)

subsection \<open>Length of a full mask\<close>



subsection \<open>Which symbol fills a mask\<close>

text \<open>
  Claim C8. Every mask \<open>doMasking\<close> returns for a matched string is one of the three
  shapes built with one symbol: the policy's configured symbol when that symbol is a
  single character (one byte, as \<open>len\<close> counts), and the default \<open>*\<close> when the
  policy is nil, or its symbol is empty or longer than one byte.
\<close>

theorem masking_symbol_resolution:
  assumes "fieldsToScrub (ToLower fieldName) = Some opts"
    and "s \<noteq> []" and "checkCanSet \<longrightarrow> canSet"
    and "doMasking ToLower MaskLenVary (VString s) canSet fieldName fieldsToScrub checkCanSet
           = Inr (m, ok)"
  shows "ok \<and>
         (let c = (case opts of
                     None \<Rightarrow> CHR ''*''
                   | Some po \<Rightarrow> if length (GetMaskingSymbol po) = 1
                                then hd (GetMaskingSymbol po) else CHR ''*'')
          in m = spec_full_mask MaskLenVary c s \<or>
             (\<exists>po. opts = Some po \<and> PartMaskEnabled po \<and>
                (m = spec_front_visible c (nat (PartMaskVisibleFrontLen po)) s \<or>
                 m = spec_middle_visible c (nat (PartMaskVisibleFrontLen po))
                          (nat (PartMaskVisibleBackLen po)) s)))"
proof -
  have c: "(case opts of
              None \<Rightarrow> CHR ''*''
            | Some po \<Rightarrow> if length (GetMaskingSymbol po) = 1
                         then hd (GetMaskingSymbol po) else CHR ''*'') = spec_symbol opts"
    by (auto simp: spec_symbol_def length_Suc_conv split: option.splits list.splits)
  show ?thesis
    using assms unfolding c
    by (auto simp: doMasking_matched [where opts = opts] Let_def split: option.splits if_splits)
qed

theorem masking_symbol_resolution_witness:
  "doMasking ToLowerASCII True (VString ''key_1'') True ''Keys''
     [''keys'' \<mapsto> Some (defaultFieldScrubOpts\<lparr>GetMaskingSymbol := ''.''\<rparr>)] True
     = Inr (''.....'', True) \<and>
   doMasking ToLowerASCII True (VString ''key_1'') True ''Keys''
     [''keys'' \<mapsto> Some (defaultFieldScrubOpts\<lparr>GetMaskingSymbol := ''..''\<rparr>)] True
     = Inr (''*****'', True) \<and>
   doMasking ToLowerASCII True (VString ''key_1'') True ''Keys''
     [''keys'' \<mapsto> Some (defaultFieldScrubOpts\<lparr>GetMaskingSymbol := []\<rparr>)] True
     = Inr (''*****'', True)"
proof -
  note keys = ToLowerASCII_Keys
  have run: "doMasking ToLowerASCII True (VString ''key_1'') True ''Keys''
               [''keys'' \<mapsto> Some (defaultFieldScrubOpts\<lparr>GetMaskingSymbol := sym\<rparr>)] True
             = Inr (replicate 5 (if length sym = 1 then hd sym else CHR ''*''), True)" for sym
  proof -
    have "\<exists>m ok. doMasking ToLowerASCII True (VString ''key_1'') True ''Keys''
               [''keys'' \<mapsto> Some (defaultFieldScrubOpts\<lparr>GetMaskingSymbol := sym\<rparr>)] True
             = Inr (m, ok)"
      by (auto simp: doMasking_matched [where opts = "Some _"] keys Let_def
          defaultFieldScrubOpts_def)
    then obtain m ok where r: "doMasking ToLowerASCII True (VString ''key_1'') True ''Keys''
               [''keys'' \<mapsto> Some (defaultFieldScrubOpts\<lparr>GetMaskingSymbol := sym\<rparr>)] True
             = Inr (m, ok)"
      by blast
    from masking_symbol_resolution [of
        "[''keys'' \<mapsto> Some (defaultFieldScrubOpts\<lparr>GetMaskingSymbol := sym\<rparr>)]" ToLowerASCII
        "''Keys''" "Some (defaultFieldScrubOpts\<lparr>GetMaskingSymbol := sym\<rparr>)"
        "''key_1''" True True True m ok] r
    show ?thesis
      by (simp add: keys defaultFieldScrubOpts_def spec_full_mask_def Let_def eval_nat_numeral)
  qed
  show ?thesis
    using run [of "''.''"] run [of "''..''"] run [of "[]"] by (simp add: eval_nat_numeral)
qed

subsection \<open>Partial masks slice without a bounds check\<close>

text \<open>
  Claim C9, as amended. For a value that reaches a partial branch (partial masking
  enabled, length between minimum and maximum), the front-visible branch returns a mask
  exactly when \<open>0 \<le> visibleFrontLen \<le> len(value)\<close>, and the middle-visible branch
  exactly when \<open>0 \<le> visibleFrontLen\<close>, \<open>0 \<le> visibleBackLen\<close> and
  \<open>visibleFrontLen + visibleBackLen \<le> len(value)\<close>; otherwise \<open>doMasking\<close>
  panics. A mask that is returned has exactly the length of the original.
\<close>

theorem partial_mask_in_bounds:
  assumes "fieldsToScrub (ToLower fieldName) = Some (Some po)"
    and "PartMaskEnabled po" and "s \<noteq> []" and "checkCanSet \<longrightarrow> canSet"
    and "PartMaskMinFldLen po \<le> int (length s)"
    and "int (length s) \<le> PartMaskMaxFldLen po"
  shows "(int (length s) < PartMaskVisibleBackOnlyIfFldLenGreaterThan po \<longrightarrow>
            (case doMasking ToLower MaskLenVary (VString s) canSet fieldName fieldsToScrub checkCanSet of
               Inl e \<Rightarrow> \<not> (0 \<le> PartMaskVisibleFrontLen po \<and>
                            PartMaskVisibleFrontLen po \<le> int (length s))
             | Inr (m, ok) \<Rightarrow> 0 \<le> PartMaskVisibleFrontLen po \<and>
                  PartMaskVisibleFrontLen po \<le> int (length s) \<and>
                  ok \<and> length m = length s)) \<and>
         (PartMaskVisibleBackOnlyIfFldLenGreaterThan po \<le> int (length s) \<longrightarrow>
            (case doMasking ToLower MaskLenVary (VString s) canSet fieldName fieldsToScrub checkCanSet of
               Inl e \<Rightarrow> \<not> (0 \<le> PartMaskVisibleFrontLen po \<and> 0 \<le> PartMaskVisibleBackLen po \<and>
                            PartMaskVisibleFrontLen po + PartMaskVisibleBackLen po
                              \<le> int (length s))
             | Inr (m, ok) \<Rightarrow> 0 \<le> PartMaskVisibleFrontLen po \<and> 0 \<le> PartMaskVisibleBackLen po \<and>
                  PartMaskVisibleFrontLen po + PartMaskVisibleBackLen po \<le> int (length s) \<and>
                  ok \<and> length m = length s))"
  using assms
  by (auto simp: doMasking_matched [where opts = "Some po"] Let_def
      spec_front_visible_def spec_middle_visible_def)

theorem partial_mask_in_bounds_witness:
  "(\<exists>m. doMasking ToLowerASCII True (VString ''123456789111111'') True ''Username''
     [''username'' \<mapsto> Some \<lparr>GetMaskingSymbol = ''*'', PartMaskEnabled = True,
      PartMaskMinFldLen = 10, PartMaskMaxFldLen = 19, PartMaskVisibleFrontLen = 6,
      PartMaskVisibleBackOnlyIfFldLenGreaterThan = 16, PartMaskVisibleBackLen = 4\<rparr>] True
       = Inr (m, True) \<and> length m = length ''123456789111111'') \<and>
   (\<exists>e. doMasking ToLowerASCII True (VString ''1234567891'') True ''Username''
     [''username'' \<mapsto> Some \<lparr>GetMaskingSymbol = ''*'', PartMaskEnabled = True,
      PartMaskMinFldLen = 10, PartMaskMaxFldLen = 19, PartMaskVisibleFrontLen = 11,
      PartMaskVisibleBackOnlyIfFldLenGreaterThan = 16, PartMaskVisibleBackLen = 4\<rparr>] True
       = Inl e)"
proof -
  have a: "case doMasking ToLowerASCII True (VString ''123456789111111'') True ''Username''
     [''username'' \<mapsto> Some \<lparr>GetMaskingSymbol = ''*'', PartMaskEnabled = True,
      PartMaskMinFldLen = 10, PartMaskMaxFldLen = 19, PartMaskVisibleFrontLen = 6,
      PartMaskVisibleBackOnlyIfFldLenGreaterThan = 16, PartMaskVisibleBackLen = 4\<rparr>] True of
        Inl e \<Rightarrow> False
      | Inr (m, ok) \<Rightarrow> ok \<and> length m = length ''123456789111111''"
    using partial_mask_in_bounds [of
      "[''username'' \<mapsto> Some \<lparr>GetMaskingSymbol = ''*'', PartMaskEnabled = True,
      PartMaskMinFldLen = 10, PartMaskMaxFldLen = 19, PartMaskVisibleFrontLen = 6,
      PartMaskVisibleBackOnlyIfFldLenGreaterThan = 16, PartMaskVisibleBackLen = 4\<rparr>]" ToLowerASCII
      "''Username''" _ "''123456789111111''" True True True]
    by (auto simp: ToLowerASCII_Username split: sum.splits)
  have b: "case doMasking ToLowerASCII True (VString ''1234567891'') True ''Username''
     [''username'' \<mapsto> Some \<lparr>GetMaskingSymbol = ''*'', PartMaskEnabled = True,
      PartMaskMinFldLen = 10, PartMaskMaxFldLen = 19, PartMaskVisibleFrontLen = 11,
      PartMaskVisibleBackOnlyIfFldLenGreaterThan = 16, PartMaskVisibleBackLen = 4\<rparr>] True of
        Inl e \<Rightarrow> True
      | Inr (m, ok) \<Rightarrow> False"
    using partial_mask_in_bounds [of
      "[''username'' \<mapsto> Some \<lparr>GetMaskingSymbol = ''*'', PartMaskEnabled = True,
      PartMaskMinFldLen = 10, PartMaskMaxFldLen = 19, PartMaskVisibleFrontLen = 11,
      PartMaskVisibleBackOnlyIfFldLenGreaterThan = 16, PartMaskVisibleBackLen = 4\<rparr>]" ToLowerASCII
      "''Username''" _ "''1234567891''" True True True]
    by (auto simp: ToLowerASCII_Username split: sum.splits)
  from a b show ?thesis
    by (auto split: sum.splits)
qed

text \<open>
  The claim's own precondition, \<open>visibleFrontLen \<le> len(value)\<close>, is not enough: the
  getters return Go \<open>int\<close>s, and a negative \<open>visibleFrontLen\<close> satisfies it and
  still panics in \<open>value[0:visibleFrontLen]\<close>.
\<close>

theorem partial_mask_in_bounds_counterexample:
  "(-1 :: int) \<le> int (length ''1234567891'') \<and>
   applyPartBackMask ''1234567891'' ''*'' (-1) = Inl SliceBoundsOutOfRange \<and>
   doMasking ToLowerASCII True (VString ''1234567891'') True ''Username''
     [''username'' \<mapsto> Some \<lparr>GetMaskingSymbol = ''*'', PartMaskEnabled = True,
      PartMaskMinFldLen = 10, PartMaskMaxFldLen = 19, PartMaskVisibleFrontLen = - 1,
      PartMaskVisibleBackOnlyIfFldLenGreaterThan = 16, PartMaskVisibleBackLen = 4\<rparr>] True
     = Inl SliceBoundsOutOfRange"
  by (simp add: doMasking_matched [where opts = "Some _"] ToLowerASCII_Username Let_def
      applyPartBackMask_single)

subsection \<open>Mask, serialise, restore\<close>

text \<open>
  Claim C1 asks that after \<open>Scrub(input, fieldsToScrub)\<close> returns the caller's value is
  unchanged: the restore pass, replaying the saved strings in the order of the mask pass,
  puts every scrubbed string back. The code does not do so when two pointers of the value
  lead to the same string. On \<open>aliased_heap\<close> the mask pass visits \<open>Password\<close> twice
  and saves \<open>"secret"\<close> and then \<open>"********"\<close>; the restore pass writes
  \<open>"secret"\<close> at the first visit and \<open>"********"\<close> at the second. \<open>Scrub\<close> returns,
  and the caller's \<open>Password\<close> is \<open>"********"\<close>.
\<close>

theorem restore_fails_on_shared_pointer:
  "Scrub1 ToLowerASCII (Suc 0) json_Marshal (Some (VPtr (Some 2))) None aliased_heap
     = Returns
         (case json_Marshal
                 (aliased_heap(3 \<mapsto> VStruct [(''Password'', True, VString ''********'')]))
                 (VPtr (Some 2)) of
            None \<Rightarrow> [] | Some b \<Rightarrow> b,
          aliased_heap(3 \<mapsto> VStruct [(''Password'', True, VString ''********'')])) \<and>
   aliased_heap 3 = Some (VStruct [(''Password'', True, VString ''secret'')])"
proof -
  have m: "scrubInternal1 ToLowerASCII (Suc 0) (VPtr (Some 2)) [] DefaultToScrub1 True
             \<lparr>heap1 = aliased_heap, savedValues = []\<rparr>
           = Returns \<lparr>heap1 = aliased_heap(3 \<mapsto> VStruct [(''Password'', True, VString ''********'')]),
                      savedValues = [''secret'', ''********'']\<rparr>"
    by (simp add: scrubInternal1_def aliased_heap_def DefaultToScrub1_def
        ToLowerASCII_Password fun_upd_twist)
  have r: "scrubInternal1 ToLowerASCII (Suc 0) (VPtr (Some 2)) [] DefaultToScrub1 False
             \<lparr>heap1 = aliased_heap(3 \<mapsto> VStruct [(''Password'', True, VString ''********'')]),
              savedValues = [''secret'', ''********'']\<rparr>
           = Returns \<lparr>heap1 = aliased_heap(3 \<mapsto> VStruct [(''Password'', True, VString ''********'')]),
                      savedValues = []\<rparr>"
    by (simp add: scrubInternal1_def aliased_heap_def DefaultToScrub1_def
        ToLowerASCII_Password fun_upd_twist)
  have before: "aliased_heap 3 = Some (VStruct [(''Password'', True, VString ''secret'')])"
    by (simp add: aliased_heap_def)
  show ?thesis
    unfolding Scrub1_def by (simp only: before) (simp add: m r Let_def)
qed

subsection \<open>Empty strings\<close>

text \<open>
  Claim C5. A string location holding the empty string is left as it is, whatever the
  field name and the policy: \<open>doMasking\<close> answers \<open>("", false)\<close>, and the walkers of
  all three generations return the location unchanged, in the mask pass and in the
  restore pass of generation 1, with nothing saved and nothing popped. So a struct field
  holding the empty string comes back as it was and the walk goes on with the fields after
  it, and an entry of a keyed map holding the empty string is passed over in the same way.
\<close>

theorem empty_string_never_masked:
  "doMasking ToLower MaskLenVary (VString []) canSet fieldName fieldsToScrub checkCanSet
     = Inr ([], False) \<and>
   scrubTarget1 ToLower n (VString []) fieldName toScrub1 masking st = Returns (VString [], st) \<and>
   scrubTarget2 ToLower n MaskLenVary DefaultMaskLen (VString []) fieldName toScrub2 h
     = Returns (VString [], h) \<and>
   scrubTarget3 ToLower n MaskLenVary (VString []) fieldName fieldsToScrub h
     = Returns (VString [], h) \<and>
   scrubFields1 ToLower n ((fieldName, True, VString []) # fs) toScrub1 masking st
     = bindO (scrubFields1 ToLower n fs toScrub1 masking st)
         (\<lambda>(fs', st'). Returns ((fieldName, True, VString []) # fs', st')) \<and>
   scrubFields2 ToLower n MaskLenVary DefaultMaskLen ((fieldName, True, VString []) # fs) toScrub2 h
     = bindO (scrubFields2 ToLower n MaskLenVary DefaultMaskLen fs toScrub2 h)
         (\<lambda>(fs', h'). Returns ((fieldName, True, VString []) # fs', h')) \<and>
   scrubFields3 ToLower n MaskLenVary ((fieldName, True, VString []) # fs) fieldsToScrub h
     = bindO (scrubFields3 ToLower n MaskLenVary fs fieldsToScrub h)
         (\<lambda>(fs', h'). Returns ((fieldName, True, VString []) # fs', h')) \<and>
   scrubMapEntries ToLower n MaskLenVary keyIsString elemType ((k, VIface (Some (VString []))) # es)
       fieldsToScrub h
     = bindO (scrubMapEntries ToLower n MaskLenVary keyIsString elemType es fieldsToScrub h)
         (\<lambda>(es', h'). Returns ((k, VIface (Some (VString []))) # es', h'))"
proof -
  have g1: "scrubTarget1 ToLower n (VString []) fieldName toScrub1 masking st = Returns (VString [], st)"
    by simp
  have g2: "scrubTarget2 ToLower n MaskLenVary DefaultMaskLen (VString []) fieldName toScrub2 h
              = Returns (VString [], h)"
    by (simp split: option.splits)
  have g3: "scrubTarget3 ToLower n MaskLenVary (VString []) fieldName fieldsToScrub h
              = Returns (VString [], h)"
    by (simp add: doMasking_empty)
  have f1: "scrubFields1 ToLower n ((fieldName, True, VString []) # fs) toScrub1 masking st
              = bindO (scrubFields1 ToLower n fs toScrub1 masking st)
                  (\<lambda>(fs', st'). Returns ((fieldName, True, VString []) # fs', st'))"
    using g1 by (simp del: scrubTarget1.simps)
  have f2: "scrubFields2 ToLower n MaskLenVary DefaultMaskLen ((fieldName, True, VString []) # fs)
              toScrub2 h
              = bindO (scrubFields2 ToLower n MaskLenVary DefaultMaskLen fs toScrub2 h)
                  (\<lambda>(fs', h'). Returns ((fieldName, True, VString []) # fs', h'))"
    using g2 by (simp del: scrubTarget2.simps)
  have f3: "scrubFields3 ToLower n MaskLenVary ((fieldName, True, VString []) # fs) fieldsToScrub h
              = bindO (scrubFields3 ToLower n MaskLenVary fs fieldsToScrub h)
                  (\<lambda>(fs', h'). Returns ((fieldName, True, VString []) # fs', h'))"
    using g3 by (simp del: scrubTarget3.simps)
  have m: "scrubMapEntries ToLower n MaskLenVary keyIsString elemType
             ((k, VIface (Some (VString []))) # es) fieldsToScrub h
             = bindO (scrubMapEntries ToLower n MaskLenVary keyIsString elemType es fieldsToScrub h)
                 (\<lambda>(es', h'). Returns ((k, VIface (Some (VString []))) # es', h'))"
    by (simp add: doMasking_empty)
  from g1 g2 g3 f1 f2 f3 m show ?thesis
    by (simp only: doMasking_empty simp_thms)
qed

subsection \<open>Keyed maps\<close>

text \<open>
  Claim C6, as amended. On a map of type \<open>map[string]interface{}\<close> holding what the
  decoder stores there (a JSON document), \<open>scrubInternalMap\<close> returns, for any fuel and
  without touching the heap, what the specification's walk \<open>spec_scrub_object\<close> gives:
  an entry whose key has a policy and whose value is a non-empty string is replaced by its
  mask under the key as field name, as the Masking Strategy \<open>spec_mask\<close> decides it
  (and the walk panics where that strategy has no mask); an entry holding a sequence is
  recursed into, element by element, where the element is a keyed map; every other entry
  is returned as it was. A map whose element type is not an interface type, such as
  \<open>map[string]string\<close>, is returned as it was, whatever it holds. A map is handed to
  \<open>scrubInternalMap\<close> wherever the walker meets one.
\<close>

theorem keyed_map_walk:
  "scrubInternalMap ToLower n MaskLenVary (VMap True ElemEmptyInterface (embed_entries kvs))
     fieldsToScrub h =
     (case spec_scrub_object ToLower MaskLenVary fieldsToScrub kvs of
        Inl p \<Rightarrow> Panics p
      | Inr kvs' \<Rightarrow> Returns (VMap True ElemEmptyInterface (embed_entries kvs'), h)) \<and>
   scrubInternalMap ToLower n MaskLenVary (VMap keyIsString ElemNotInterface es) fieldsToScrub h
     = Returns (VMap keyIsString ElemNotInterface es, h) \<and>
   scrubTarget3 ToLower n MaskLenVary (VMap keyIsString elemType es) fieldName fieldsToScrub h =
     scrubInternalMap ToLower n MaskLenVary (VMap keyIsString elemType es) fieldsToScrub h"
proof (intro conjI)
  show "scrubInternalMap ToLower n MaskLenVary (VMap True ElemEmptyInterface (embed_entries kvs))
          fieldsToScrub h =
     (case spec_scrub_object ToLower MaskLenVary fieldsToScrub kvs of
        Inl p \<Rightarrow> Panics p
      | Inr kvs' \<Rightarrow> Returns (VMap True ElemEmptyInterface (embed_entries kvs'), h))"
    by (simp add: scrub_json_object_elems(1) split: sum.splits)
  show "scrubInternalMap ToLower n MaskLenVary (VMap keyIsString ElemNotInterface es) fieldsToScrub h
          = Returns (VMap keyIsString ElemNotInterface es, h)"
    by (simp add: scrubMapEntries_static)
  show "scrubTarget3 ToLower n MaskLenVary (VMap keyIsString elemType es) fieldName fieldsToScrub h =
          scrubInternalMap ToLower n MaskLenVary (VMap keyIsString elemType es) fieldsToScrub h"
    by simp
qed

text \<open>
  The \<open>MapData\<close> of \<open>TestScrubNestedMapSupportPartialMask\<close>: the values under
  \<open>"91"\<close> and, two levels down, under \<open>"86"\<close> come out masked in the middle; the
  value under \<open>"77"\<close>, which has no policy, stays.
\<close>

theorem keyed_map_walk_witness:
  "scrubInternalMap ToLowerASCII 0 True
     (VMap True ElemEmptyInterface (embed_entries (MapData ''1234567891111111111'')))
     mapPolicies Map.empty
   = Returns (VMap True ElemEmptyInterface (embed_entries (MapData ''123456*********1111'')),
              Map.empty)"
proof -
  have masked: "spec_entry_string ToLowerASCII True mapPolicies k ''1234567891111111111''
                  = Inr ''123456*********1111''" if "k = ''86'' \<or> k = ''91''" for k
    using that
    by (auto simp: spec_entry_string_def spec_mask_def mapPolicies_def ToLowerASCII_digits
        partPolicy_def Let_def spec_symbol_def spec_middle_visible_def)
  have kept: "spec_entry_string ToLowerASCII True mapPolicies ''77'' s = Inr s" for s
    by (simp add: spec_entry_string_def mapPolicies_def ToLowerASCII_digits)
  have "spec_scrub_object ToLowerASCII True mapPolicies (MapData ''1234567891111111111'')
          = Inr (MapData ''123456*********1111'')"
    by (simp add: MapData_def masked kept)
  with keyed_map_walk [of ToLowerASCII 0 True "MapData ''1234567891111111111''" mapPolicies Map.empty]
  show ?thesis
    by simp
qed

text \<open>
  As the claim is worded, for every map with string keys and dynamically typed values and
  for every entry shape, it fails in three places. A map whose key type is a named string
  type, \<open>map[MyKey]interface{}\<close>, is not masked: \<open>SetMapIndex\<close> is handed a key of
  type \<open>string\<close> and panics. A hand-built entry holding a \<open>[]map[string]interface{}\<close>
  is not recursed into: its elements are of kind Map, and \<open>arrValue.Elem()\<close> panics. And
  a matching entry holding the empty string is not masked.
\<close>

theorem keyed_map_walk_counterexample:
  "scrubInternalMap ToLowerASCII 0 False
     (VMap False ElemEmptyInterface [(''password'', VIface (Some (VString ''secret'')))])
     defaultToScrub Map.empty
   = Panics NotAssignable \<and>
   scrubInternalMap ToLowerASCII 0 False
     (VMap True ElemEmptyInterface
        [(''72'', VIface (Some (VSlice
            [VMap True ElemEmptyInterface
               [(''password'', VIface (Some (VString ''secret'')))]])))])
     defaultToScrub Map.empty
   = Panics ElemOfNonPointer \<and>
   scrubInternalMap ToLowerASCII 0 False
     (VMap True ElemEmptyInterface [(''password'', VIface (Some (VString [])))])
     defaultToScrub Map.empty
   = Returns (VMap True ElemEmptyInterface [(''password'', VIface (Some (VString [])))],
              Map.empty)"
proof -
  have "doMasking ToLowerASCII False (VString ''secret'') False ''password'' defaultToScrub False
          = Inr (''********'', True)"
    by (simp add: doMasking_matched [where opts = "Some defaultFieldScrubOpts"]
        defaultToScrub_def ToLowerASCII_password defaultFieldScrubOpts_def defaultMaskSymbol_def
        spec_symbol_def spec_full_mask_def Let_def eval_nat_numeral)
  then show ?thesis
    by (simp add: doMasking_empty)
qed

subsection \<open>Invalid input and codec failures\<close>

text \<open>
  Claim C7. \<open>Scrub(cloning, target, fieldsToScrub, dataType)\<close> returns normally with
  \<open>"null"\<close> for JSON and \<open>""\<close> for XML when the target or the clone receptacle is
  nil or zero-valued, when the codec fails to encode the target, and when it fails to
  decode into the clone.
\<close>

theorem invalid_input_and_codec_failure:
  "(invalidInput cloning target \<longrightarrow>
      Scrub3 ToLower n MaskLenVary json xml cloning target fieldsToScrub JSONScrub h
        = Returns (''null'', h) \<and>
      Scrub3 ToLower n MaskLenVary json xml cloning target fieldsToScrub XMLScrub h
        = Returns ('''', h)) \<and>
   (\<not> invalidInput (Some c) (Some t) \<and> Marshal json h t = None \<longrightarrow>
      Scrub3 ToLower n MaskLenVary json xml (Some c) (Some t) fieldsToScrub JSONScrub h
        = Returns (''null'', h)) \<and>
   (\<not> invalidInput (Some c) (Some t) \<and> Marshal xml h t = None \<longrightarrow>
      Scrub3 ToLower n MaskLenVary json xml (Some c) (Some t) fieldsToScrub XMLScrub h
        = Returns ('''', h)) \<and>
   (\<not> invalidInput (Some c) (Some t) \<and> Marshal json h t = Some b \<and>
    Unmarshal json b c h = (h1, False) \<longrightarrow>
      Scrub3 ToLower n MaskLenVary json xml (Some c) (Some t) fieldsToScrub JSONScrub h
        = Returns (''null'', h1)) \<and>
   (\<not> invalidInput (Some c) (Some t) \<and> Marshal xml h t = Some b \<and>
    Unmarshal xml b c h = (h1, False) \<longrightarrow>
      Scrub3 ToLower n MaskLenVary json xml (Some c) (Some t) fieldsToScrub XMLScrub h
        = Returns ('''', h1))"
proof -
  have formats: "JSONScrub \<noteq> XMLScrub"
    by (simp add: JSONScrub_def XMLScrub_def)
  have invalid: "Scrub3 ToLower n MaskLenVary json xml cloning target fieldsToScrub dataType h
                   = Returns (if dataType = XMLScrub then [] else ''null'', h)"
    if "invalidInput cloning target" for dataType
    using that formats by (simp add: Scrub3_def)
  have valid: "Scrub3 ToLower n MaskLenVary json xml (Some c) (Some t) fieldsToScrub dataType h
                 = (case Marshal enc h t of
                      None \<Rightarrow> Returns (empty, h)
                    | Some b \<Rightarrow>
                        (case Unmarshal enc b c h of
                           (h1, False) \<Rightarrow> Returns (empty, h1)
                         | (h1, True) \<Rightarrow>
                             bindO (scrubInternal3 ToLower n MaskLenVary c []
                                      (case fieldsToScrub of
                                         None \<Rightarrow> defaultToScrub | Some f \<Rightarrow> f) h1)
                               (\<lambda>h2. case Marshal enc h2 c of
                                        None \<Rightarrow> Returns (empty, h2)
                                      | Some out \<Rightarrow> Returns (out, h2))))"
    if "\<not> invalidInput (Some c) (Some t)"
      and "dataType = JSONScrub \<and> enc = json \<and> empty = ''null'' \<or>
           dataType = XMLScrub \<and> enc = xml \<and> empty = []"
    for dataType enc empty
    using that formats by (auto simp: Scrub3_def Let_def split: option.splits prod.splits bool.splits)
  show ?thesis
    using formats by (auto simp: invalid valid [where enc = json] valid [where enc = xml])
qed

theorem invalid_input_and_codec_failure_witness:
  "Scrub3 ToLowerASCII 0 False \<lparr>Marshal = \<lambda>h v. None, Unmarshal = \<lambda>b v h. (h, False)\<rparr>
     \<lparr>Marshal = \<lambda>h v. None, Unmarshal = \<lambda>b v h. (h, False)\<rparr>
     (Some (VPtr (Some 2))) (Some (VPtr None)) None JSONScrub Map.empty
     = Returns (''null'', Map.empty) \<and>
   Scrub3 ToLowerASCII 0 False \<lparr>Marshal = \<lambda>h v. None, Unmarshal = \<lambda>b v h. (h, False)\<rparr>
     \<lparr>Marshal = \<lambda>h v. None, Unmarshal = \<lambda>b v h. (h, False)\<rparr>
     (Some (VPtr (Some 2))) (Some (VPtr None)) None XMLScrub Map.empty
     = Returns ('''', Map.empty) \<and>
   Scrub3 ToLowerASCII 0 False \<lparr>Marshal = \<lambda>h v. None, Unmarshal = \<lambda>b v h. (h, False)\<rparr>
     \<lparr>Marshal = \<lambda>h v. None, Unmarshal = \<lambda>b v h. (h, False)\<rparr>
     (Some (VPtr (Some 2))) (Some (VPtr (Some 3))) None JSONScrub Map.empty
     = Returns (''null'', Map.empty) \<and>
   Scrub3 ToLowerASCII 0 False \<lparr>Marshal = \<lambda>h v. None, Unmarshal = \<lambda>b v h. (h, False)\<rparr>
     \<lparr>Marshal = \<lambda>h v. None, Unmarshal = \<lambda>b v h. (h, False)\<rparr>
     (Some (VPtr (Some 2))) (Some (VPtr (Some 3))) None XMLScrub Map.empty
     = Returns ('''', Map.empty) \<and>
   Scrub3 ToLowerASCII 0 False \<lparr>Marshal = \<lambda>h v. Some ''{}'', Unmarshal = \<lambda>b v h. (h, False)\<rparr>
     \<lparr>Marshal = \<lambda>h v. Some ''<a></a>'', Unmarshal = \<lambda>b v h. (h, False)\<rparr>
     (Some (VPtr (Some 2))) (Some (VPtr (Some 3))) None JSONScrub Map.empty
     = Returns (''null'', Map.empty) \<and>
   Scrub3 ToLowerASCII 0 False \<lparr>Marshal = \<lambda>h v. Some ''{}'', Unmarshal = \<lambda>b v h. (h, False)\<rparr>
     \<lparr>Marshal = \<lambda>h v. Some ''<a></a>'', Unmarshal = \<lambda>b v h. (h, False)\<rparr>
     (Some (VPtr (Some 2))) (Some (VPtr (Some 3))) None XMLScrub Map.empty
     = Returns ('''', Map.empty)"
  using
    invalid_input_and_codec_failure [of "Some (VPtr (Some 2))" "Some (VPtr None)"
      ToLowerASCII 0 False
      "\<lparr>Marshal = \<lambda>h v. None, Unmarshal = \<lambda>b v h. (h, False)\<rparr>"
      "\<lparr>Marshal = \<lambda>h v. None, Unmarshal = \<lambda>b v h. (h, False)\<rparr>"
      None Map.empty "VPtr (Some 2)" "VPtr (Some 3)" "[]" Map.empty]
    invalid_input_and_codec_failure [of "Some (VPtr (Some 2))" "Some (VPtr None)"
      ToLowerASCII 0 False
      "\<lparr>Marshal = \<lambda>h v. Some ''{}'', Unmarshal = \<lambda>b v h. (h, False)\<rparr>"
      "\<lparr>Marshal = \<lambda>h v. Some ''<a></a>'', Unmarshal = \<lambda>b v h. (h, False)\<rparr>"
      None Map.empty "VPtr (Some 2)" "VPtr (Some 3)" "''{}''" Map.empty]
    invalid_input_and_codec_failure [of "Some (VPtr (Some 2))" "Some (VPtr None)"
      ToLowerASCII 0 False
      "\<lparr>Marshal = \<lambda>h v. Some ''{}'', Unmarshal = \<lambda>b v h. (h, False)\<rparr>"
      "\<lparr>Marshal = \<lambda>h v. Some ''<a></a>'', Unmarshal = \<lambda>b v h. (h, False)\<rparr>"
      None Map.empty "VPtr (Some 2)" "VPtr (Some 3)" "''<a></a>''" Map.empty]
  by (simp add: invalidInput_def)

subsection \<open>A value passed instead of its address\<close>

text \<open>
  Claim C10. When the input of generation 1 is not a pointer, \<open>scrubInternal\<close> returns
  at once, in both passes: \<open>Scrub\<close> returns the serialisation of the value as it was
  handed over, nothing masked, nothing reported, and the heap is as before.
\<close>

theorem non_pointer_input_not_scrubbed:
  assumes "\<forall>p. input \<noteq> VPtr p"
  shows "Scrub1 ToLower n json_Marshal (Some input) fieldsToScrub h =
           Returns (case json_Marshal h input of None \<Rightarrow> [] | Some b \<Rightarrow> b, h) \<and>
         scrubInternal1 ToLower n input fieldName toScrub masking st = Returns st"
  using assms
  by (cases input) (simp_all add: Scrub1_def scrubInternal1_def Let_def)

theorem non_pointer_input_not_scrubbed_witness:
  "Scrub1 ToLowerASCII 0 (\<lambda>h v. case v of VStruct [(f, e, VString s)] \<Rightarrow> Some (f @ '':'' @ s) | _ \<Rightarrow> None)
     (Some (VStruct [(''Password'', True, VString ''secret'')])) None Map.empty
   = Returns (''Password:secret'', Map.empty)"
  using non_pointer_input_not_scrubbed [of "VStruct [(''Password'', True, VString ''secret'')]"
      ToLowerASCII 0 "\<lambda>h v. case v of VStruct [(f, e, VString s)] \<Rightarrow> Some (f @ '':'' @ s) | _ \<Rightarrow> None"
      None Map.empty]
  by simp

end
